theory Spec2Isabelle
  imports Complex_Main
begin

unbundle bit_operations_syntax

section \<open>The HllSet data model\<close>

text \<open>
  An HllSet is a Python dict from bucket ids to bucket records. A bucket record is a dict
  that always has the key \<^verbatim>\<open>"zeros"\<close> (a list of trailing-zero counts) and may have the keys
  \<^verbatim>\<open>"frequencies"\<close> and \<^verbatim>\<open>"documents"\<close> (the notebook marks both as optional). A missing
  key is \<open>None\<close>. Python integers are unbounded, so bucket ids, trailing-zero counts,
  frequencies and document ids are \<open>int\<close>.
\<close>

record bucket =
  zeros :: "int list"
  frequencies :: "int list option"
  documents :: "int list option"

type_synonym hllset = "int \<rightharpoonup> bucket"

datatype py_error = ValueError | KeyError | ZeroDivisionError | OverflowError

text \<open>
  \<^verbatim>\<open>{"zeros": zs}\<close>: a record with the single key \<^verbatim>\<open>"zeros"\<close>.
\<close>

definition zeros_only :: "int list \<Rightarrow> bucket" where
  "zeros_only zs = \<lparr>zeros = zs, frequencies = None, documents = None\<rparr>"

text \<open>
  \<^verbatim>\<open>list(set(xs))\<close>: the distinct elements of \<open>xs\<close>. Python does not specify the order
  in which a set is iterated; the model fixes one order. No theorem about arbitrary
  sketches depends on the order chosen: their proofs use only \<open>set_list_of_set\<close> and
  \<open>list_of_set_Nil_iff\<close>. The concrete examples evaluate it on lists with one distinct
  value, or on \<open>[0, 1, 1]\<close>, which CPython also turns into \<open>[0, 1]\<close>.
\<close>

definition list_of_set :: "int list \<Rightarrow> int list" where
  "list_of_set xs = remdups xs"

text \<open>\<^verbatim>\<open>hllset.get(b, {"zeros": []})["zeros"]\<close>\<close>

definition get_zeros :: "hllset \<Rightarrow> int \<Rightarrow> int list" where
  "get_zeros hllset b = (case hllset b of None \<Rightarrow> [] | Some bk \<Rightarrow> zeros bk)"

text \<open>
  \<^verbatim>\<open>len(hllset)\<close>: the number of keys of the dict. A Python dict is finite; the sketches
  that \<open>ingest_dataset\<close> returns have a finite domain, and the operations keep it finite.
\<close>

definition len :: "hllset \<Rightarrow> nat" where
  "len hllset = card (dom hllset)"

section \<open>Ingesting\<close>

text \<open>
  Python's shifts raise ValueError ("negative shift count") for a negative right operand.
  On a non-negative count, \<^verbatim>\<open>a >> n\<close> is the floor of \<open>a / 2 ^ n\<close> and \<^verbatim>\<open>a << n\<close> is
  \<open>a * 2 ^ n\<close>, on unbounded integers.
\<close>

definition rshift :: "int \<Rightarrow> int \<Rightarrow> py_error + int" where
  "rshift a n = (if n < 0 then Inl ValueError else Inr (drop_bit (nat n) a))"

definition lshift :: "int \<Rightarrow> int \<Rightarrow> py_error + int" where
  "lshift a n = (if n < 0 then Inl ValueError else Inr (push_bit (nat n) a))"

text \<open>
  The bucket of a hash value, the line
  \<^verbatim>\<open>b = (hash_val >> (64 - p)) & ((1 << p) - 1)  # First p bits\<close>
  of \<^verbatim>\<open>ingest_dataset\<close>. The left operand of \<^verbatim>\<open>&\<close> is evaluated first.
\<close>

definition bucket_index :: "int \<Rightarrow> int \<Rightarrow> py_error + int" where
  "bucket_index hash_val p =
     (case rshift hash_val (64 - p) of
        Inl e \<Rightarrow> Inl e
      | Inr shifted \<Rightarrow>
         (case lshift 1 p of
            Inl e \<Rightarrow> Inl e
          | Inr m \<Rightarrow> Inr (shifted AND (m - 1))))"

text \<open>
  \<^verbatim>\<open>
  def ingest_dataset(documents, p):
      hllset = {}
      for doc_id, document in enumerate(documents):
          tokens = tokenize(document)
          for token in tokens:
              hash_val = hash_function(token)
              b = (hash_val >> (64 - p)) & ((1 << p) - 1)  # First p bits
              z = count_trailing_zeros(hash_val)  # Number of trailing zeros

              if b not in hllset:
                  hllset[b] = {"zeros": [], "frequencies": [], "documents": []}

              hllset[b]["zeros"].append(z)
              hllset[b]["frequencies"].append(1)  # Increment frequency
              hllset[b]["documents"].append(doc_id)

      return hllset
  \<close>
  The notebook defines none of \<^verbatim>\<open>tokenize\<close>, \<^verbatim>\<open>hash_function\<close> and
  \<^verbatim>\<open>count_trailing_zeros\<close>: the model takes them as parameters (pure functions).

  \<open>ingest_token\<close> is the body of the inner loop, on the dict built so far. A subscript
  with a missing key raises KeyError.
\<close>

definition ingest_token ::
  "('tok \<Rightarrow> int) \<Rightarrow> (int \<Rightarrow> int) \<Rightarrow> int \<Rightarrow> int \<Rightarrow> hllset \<Rightarrow> 'tok \<Rightarrow> py_error + hllset" where
  "ingest_token hash_function count_trailing_zeros p doc_id hllset token =
     (let hash_val = hash_function token in
      case bucket_index hash_val p of
        Inl e \<Rightarrow> Inl e
      | Inr b \<Rightarrow>
         (let z = count_trailing_zeros hash_val;
              hllset1 = (if b \<notin> dom hllset
                         then hllset(b \<mapsto> \<lparr>zeros = [], frequencies = Some [], documents = Some []\<rparr>)
                         else hllset)
          in case hllset1 b of
               None \<Rightarrow> Inl KeyError
             | Some bk \<Rightarrow>
                (case (frequencies bk, documents bk) of
                   (Some fs, Some ds) \<Rightarrow>
                     Inr (hllset1(b \<mapsto> \<lparr>zeros = zeros bk @ [z],
                                          frequencies = Some (fs @ [1]),
                                          documents = Some (ds @ [doc_id])\<rparr>))
                 | _ \<Rightarrow> Inl KeyError)))"

fun ingest_tokens ::
  "('tok \<Rightarrow> int) \<Rightarrow> (int \<Rightarrow> int) \<Rightarrow> int \<Rightarrow> int \<Rightarrow> hllset \<Rightarrow> 'tok list \<Rightarrow> py_error + hllset" where
  "ingest_tokens hash_function count_trailing_zeros p doc_id hllset [] = Inr hllset"
| "ingest_tokens hash_function count_trailing_zeros p doc_id hllset (token # tokens) =
     (case ingest_token hash_function count_trailing_zeros p doc_id hllset token of
        Inl e \<Rightarrow> Inl e
      | Inr hllset1 \<Rightarrow> ingest_tokens hash_function count_trailing_zeros p doc_id hllset1 tokens)"

text \<open>The outer loop; \<open>doc_id\<close> is the counter of \<^verbatim>\<open>enumerate\<close>.\<close>

fun ingest_documents ::
  "('doc \<Rightarrow> 'tok list) \<Rightarrow> ('tok \<Rightarrow> int) \<Rightarrow> (int \<Rightarrow> int) \<Rightarrow> int \<Rightarrow> int \<Rightarrow> hllset \<Rightarrow> 'doc list
     \<Rightarrow> py_error + hllset" where
  "ingest_documents tokenize hash_function count_trailing_zeros p doc_id hllset [] = Inr hllset"
| "ingest_documents tokenize hash_function count_trailing_zeros p doc_id hllset (document # docs) =
     (case ingest_tokens hash_function count_trailing_zeros p doc_id hllset (tokenize document) of
        Inl e \<Rightarrow> Inl e
      | Inr hllset1 \<Rightarrow>
          ingest_documents tokenize hash_function count_trailing_zeros p (doc_id + 1) hllset1 docs)"

definition ingest_dataset ::
  "('doc \<Rightarrow> 'tok list) \<Rightarrow> ('tok \<Rightarrow> int) \<Rightarrow> (int \<Rightarrow> int) \<Rightarrow> 'doc list \<Rightarrow> int \<Rightarrow> py_error + hllset" where
  "ingest_dataset tokenize hash_function count_trailing_zeros docs p =
     ingest_documents tokenize hash_function count_trailing_zeros p 0 Map.empty docs"

text \<open>
  Modelled from the spec: \<^verbatim>\<open>count_trailing_zeros\<close>, which \<^verbatim>\<open>ingest_dataset\<close> calls and the
  notebook does not define ("z is the number of trailing zeros in the hash"). The number of
  zero bits below the lowest set bit of a 64-bit hash value, 64 for the value 0. It is used
  below only to run \<open>ingest_dataset\<close> on concrete inputs; the theorems about ingestion
  hold for every function in its place.
\<close>

fun trailing_zeros_upto :: "nat \<Rightarrow> int \<Rightarrow> int" where
  "trailing_zeros_upto 0 h = 0"
| "trailing_zeros_upto (Suc n) h = (if odd h then 0 else 1 + trailing_zeros_upto n (h div 2))"

definition count_trailing_zeros :: "int \<Rightarrow> int" where
  "count_trailing_zeros hash_val = trailing_zeros_upto 64 hash_val"

section \<open>Basic set operations\<close>

text \<open>
  \<^verbatim>\<open>
  def union(hllset1, hllset2):
      result = {}
      for b in set(hllset1.keys()).union(hllset2.keys()):
          zeros1 = hllset1.get(b, {"zeros": []})["zeros"]
          zeros2 = hllset2.get(b, {"zeros": []})["zeros"]
          result[b] = {"zeros": list(set(zeros1 + zeros2))}
      return result
  \<close>
  Each iteration of the loop writes the key it visits and no other, so the result does
  not depend on the order of the iteration: it is the map below.
\<close>

definition union_hll :: "hllset \<Rightarrow> hllset \<Rightarrow> hllset" where
  "union_hll hllset1 hllset2 =
     (\<lambda>b. if b \<in> dom hllset1 \<union> dom hllset2
          then Some (zeros_only (list_of_set (get_zeros hllset1 b @ get_zeros hllset2 b)))
          else None)"

text \<open>
  \<^verbatim>\<open>
  def intersection(hllset1, hllset2):
      result = {}
      for b in set(hllset1.keys()).intersection(hllset2.keys()):
          zeros1 = hllset1[b]["zeros"]
          zeros2 = hllset2[b]["zeros"]
          common_zeros = list(set(zeros1).intersection(zeros2))
          if common_zeros:
              result[b] = {"zeros": common_zeros}
      return result
  \<close>
  The subscripts \<^verbatim>\<open>hllset1[b]\<close> and \<^verbatim>\<open>hllset2[b]\<close> are reached only for a key of both
  dicts, so they cannot raise.
\<close>

definition intersection :: "hllset \<Rightarrow> hllset \<Rightarrow> hllset" where
  "intersection hllset1 hllset2 =
     (\<lambda>b. case (hllset1 b, hllset2 b) of
            (Some bk1, Some bk2) \<Rightarrow>
              (let zeros1 = zeros bk1;
                   zeros2 = zeros bk2;
                   common_zeros = list_of_set (filter (\<lambda>z. z \<in> set zeros2) zeros1)
               in if common_zeros \<noteq> [] then Some (zeros_only common_zeros) else None)
          | _ \<Rightarrow> None)"

text \<open>
  \<^verbatim>\<open>
  def complement(hllset1, hllset2):
      result = {}
      for b in hllset1:
          if b not in hllset2:
              result[b] = hllset1[b]
          else:
              zeros1 = hllset1[b]["zeros"]
              zeros2 = hllset2[b]["zeros"]
              unique_zeros = list(set(zeros1) - set(zeros2))
              if unique_zeros:
                  result[b] = {"zeros": unique_zeros}
      return result
  \<close>
\<close>

definition complement :: "hllset \<Rightarrow> hllset \<Rightarrow> hllset" where
  "complement hllset1 hllset2 =
     (\<lambda>b. case hllset1 b of
            None \<Rightarrow> None
          | Some bk1 \<Rightarrow>
             (case hllset2 b of
                None \<Rightarrow> Some bk1
              | Some bk2 \<Rightarrow>
                 (let zeros1 = zeros bk1;
                      zeros2 = zeros bk2;
                      unique_zeros = list_of_set (filter (\<lambda>z. z \<notin> set zeros2) zeros1)
                  in if unique_zeros \<noteq> [] then Some (zeros_only unique_zeros) else None)))"

text \<open>\<^verbatim>\<open>def difference(hllset1, hllset2): return complement(hllset1, hllset2)\<close>\<close>

definition difference :: "hllset \<Rightarrow> hllset \<Rightarrow> hllset" where
  "difference hllset1 hllset2 = complement hllset1 hllset2"

section \<open>Similarity\<close>

text \<open>
  Python's \<^verbatim>\<open>/\<close> on two ints raises ZeroDivisionError for a zero divisor. Otherwise it
  returns a float: the IEEE 754 double nearest to the exact quotient, ties going to the
  double with an even significand, and it raises OverflowError when that is \<open>2 ^ 1024\<close> or
  more. The operands here are sizes of dicts, so they are natural numbers. A float is
  modelled by the rational number it stands for.

  \<open>bit_length n\<close> is Python's \<^verbatim>\<open>n.bit_length()\<close>. \<open>binade a b\<close> is the exponent \<open>e\<close> with
  \<open>2 ^ e \<le> a / b < 2 ^ (e + 1)\<close>, for positive \<open>a\<close> and \<open>b\<close>. A double in that binade is a
  multiple of \<open>2 ^ (e - 52)\<close> (53 significant bits); below \<open>2 ^ (- 1022)\<close> the doubles are
  the multiples of \<open>2 ^ (- 1074)\<close>.
\<close>

fun bit_length :: "nat \<Rightarrow> nat" where
  "bit_length n = (if n = 0 then 0 else Suc (bit_length (n div 2)))"

declare bit_length.simps [simp del]

definition binade :: "nat \<Rightarrow> nat \<Rightarrow> int" where
  "binade a b =
     (let d = int (bit_length a) - int (bit_length b)
      in if (2::rat) powi d \<le> of_nat a / of_nat b then d else d - 1)"

definition round_half_even :: "rat \<Rightarrow> int" where
  "round_half_even x =
     (let f = \<lfloor>x\<rfloor>; d = x - of_int f
      in if d < 1 / 2 then f else if 1 / 2 < d then f + 1 else if even f then f else f + 1)"

definition nearest_double :: "nat \<Rightarrow> nat \<Rightarrow> rat" where
  "nearest_double a b =
     (if a = 0 then 0
      else let e = max (binade a b) (- 1022);
               ulp = 2 powi (e - 52)
           in of_int (round_half_even (of_nat a / of_nat b / ulp)) * ulp)"

definition truediv :: "nat \<Rightarrow> nat \<Rightarrow> py_error + rat" where
  "truediv a b =
     (if b = 0 then Inl ZeroDivisionError
      else let d = nearest_double a b
           in if 2 ^ 1024 \<le> d then Inl OverflowError else Inr d)"

text \<open>
  \<^verbatim>\<open>
  def jaccard_similarity(hllset1, hllset2):
      intersection_size = len(intersection(hllset1, hllset2))
      union_size = len(union(hllset1, hllset2))
      return intersection_size / union_size if union_size > 0 else 0
  \<close>
  The else branch returns the int 0, the then branch a float; both are numbers, and the
  model gives the number.
\<close>

definition jaccard_similarity :: "hllset \<Rightarrow> hllset \<Rightarrow> py_error + rat" where
  "jaccard_similarity hllset1 hllset2 =
     (let intersection_size = len (intersection hllset1 hllset2);
          union_size = len (union_hll hllset1 hllset2)
      in if union_size > 0 then truediv intersection_size union_size else Inr 0)"

section \<open>What a sketch holds, bucket by bucket\<close>

text \<open>
  The set of trailing-zero counts recorded for bucket \<open>b\<close> (empty for an absent bucket),
  and the sketch seen as a map from bucket ids to such sets: the comparison of two
  sketches "per-bucket contents as sets".
\<close>

definition zeros_at :: "hllset \<Rightarrow> int \<Rightarrow> int set" where
  "zeros_at hllset b = set (get_zeros hllset b)"

definition as_sets :: "hllset \<Rightarrow> int \<rightharpoonup> int set" where
  "as_sets hllset = (\<lambda>b. map_option (\<lambda>bk. set (zeros bk)) (hllset b))"

text \<open>
  Two sketches are disjoint when they have no (bucket, trailing-zero count) pair in common.
\<close>

definition disjoint_sketches :: "hllset \<Rightarrow> hllset \<Rightarrow> bool" where
  "disjoint_sketches A B = (\<forall>b. zeros_at A b \<inter> zeros_at B b = {})"

text \<open>
  What holds of the dict at every point of \<^verbatim>\<open>ingest_dataset\<close>: every bucket has its three
  lists, there are finitely many buckets, and their ids lie in \<open>[0, 2 ^ p)\<close>.
\<close>

definition has_metadata :: "hllset \<Rightarrow> bool" where
  "has_metadata hllset =
     (\<forall>b bk. hllset b = Some bk \<longrightarrow> frequencies bk \<noteq> None \<and> documents bk \<noteq> None)"

definition ingested :: "int \<Rightarrow> hllset \<Rightarrow> bool" where
  "ingested p hllset =
     (has_metadata hllset \<and> finite (dom hllset) \<and> dom hllset \<subseteq> {0 ..< 2 ^ nat p})"

section \<open>The cardinality estimator of the specification\<close>

text \<open>
  Modelled from the spec: \<^verbatim>\<open>count\<close>, the cardinality estimator (section 4.4), which
  \<^verbatim>\<open>hllset_system.ipynb\<close> does not define; the Julia notebook calls it from a module that is
  not among the sources. In the words of the specification: the statistic of a bucket is
  the position of the highest set bit of its bitmap (the largest trailing-zero count
  recorded in it), 0 for an empty bucket; the estimate is the harmonic mean of
  \<open>2 ^ statistic\<close> over all \<open>m = 2 ^ p\<close> buckets, scaled by \<open>m\<close> and a constant \<open>alpha_m\<close>; on a
  mostly-empty sketch it is replaced by linear counting, \<open>m * ln (m / V)\<close> for \<open>V\<close> empty
  buckets, and on a nearly saturated one by the correction for the 64-bit hash space. The
  specification leaves \<open>alpha_m\<close> and the two thresholds to the reference algorithm
  (Flajolet, Fusy, Gandouet, Meunier 2007, the second reference of the notebook), from
  which they are taken. A sketch does not record its precision, so \<open>p\<close> is an argument.
  Whatever \<open>alpha_m\<close> is, as long as it is at most 1, a sketch with at least two fifths of
  its buckets empty is counted by linear counting (\<open>count_linear_counting\<close>).
\<close>

definition alpha_m :: "nat \<Rightarrow> real" where
  "alpha_m m =
     (if m = 16 then 673 / 1000
      else if m = 32 then 697 / 1000
      else if m = 64 then 709 / 1000
      else 7213 / 10000 / (1 + 1079 / 1000 / real m))"

definition bucket_statistic :: "hllset \<Rightarrow> int \<Rightarrow> int" where
  "bucket_statistic hllset b =
     (case hllset b of
        None \<Rightarrow> 0
      | Some bk \<Rightarrow> if zeros bk = [] then 0 else Max (set (zeros bk)))"

definition empty_bucket :: "hllset \<Rightarrow> int \<Rightarrow> bool" where
  "empty_bucket hllset b = (case hllset b of None \<Rightarrow> True | Some bk \<Rightarrow> zeros bk = [])"

definition empty_buckets :: "nat \<Rightarrow> hllset \<Rightarrow> nat" where
  "empty_buckets p hllset = length (filter (\<lambda>j. empty_bucket hllset (int j)) [0 ..< 2 ^ p])"

definition raw_estimate :: "nat \<Rightarrow> hllset \<Rightarrow> real" where
  "raw_estimate p hllset =
     (let m = 2 ^ p
      in alpha_m m * real m
           * (real m / (\<Sum>j \<leftarrow> [0 ..< m]. 2 powi (- bucket_statistic hllset (int j)))))"

definition count :: "nat \<Rightarrow> hllset \<Rightarrow> real" where
  "count p hllset =
     (let m = 2 ^ p;
          E = raw_estimate p hllset;
          V = empty_buckets p hllset
      in if E \<le> 5 / 2 * real m \<and> 0 < V then real m * ln (real m / real V)
         else if 2 ^ 64 / 30 < E then - (2 ^ 64) * ln (1 - E / 2 ^ 64)
         else E)"

section \<open>Basic facts\<close>

lemma set_list_of_set: "set (list_of_set xs) = set xs"
  by (simp add: list_of_set_def)

lemma distinct_list_of_set: "distinct (list_of_set xs)"
  by (simp add: list_of_set_def)

lemma list_of_set_Nil_iff: "list_of_set xs = [] \<longleftrightarrow> set xs = {}"
  by (simp add: list_of_set_def)

lemma trailing_zeros_upto_odd: "odd h \<Longrightarrow> trailing_zeros_upto n h = 0"
  by (cases n) simp_all

subsection \<open>Bucket by bucket: what the operations return\<close>

lemma zeros_at_empty: "zeros_at Map.empty b = {}"
  by (simp add: zeros_at_def get_zeros_def)

lemma as_sets_eq_zeros_at: "as_sets h b = (if b \<in> dom h then Some (zeros_at h b) else None)"
  by (auto simp: as_sets_def zeros_at_def get_zeros_def split: option.splits)

lemma dom_union_hll: "dom (union_hll A B) = dom A \<union> dom B"
  by (auto simp: union_hll_def split: if_splits)

lemma zeros_at_union_hll: "zeros_at (union_hll A B) b = zeros_at A b \<union> zeros_at B b"
  by (auto simp: zeros_at_def get_zeros_def union_hll_def zeros_only_def set_list_of_set
      split: option.splits)

lemma as_sets_union_hll:
  "as_sets (union_hll A B) b =
     (if b \<in> dom A \<union> dom B then Some (zeros_at A b \<union> zeros_at B b) else None)"
  by (simp add: as_sets_eq_zeros_at dom_union_hll zeros_at_union_hll)

lemma union_hll_Some:
  "union_hll A B b = Some bk \<Longrightarrow> frequencies bk = None \<and> documents bk = None"
  by (auto simp: union_hll_def zeros_only_def split: if_splits)

lemma dom_intersection: "dom (intersection A B) = {b. zeros_at A b \<inter> zeros_at B b \<noteq> {}}"
  by (auto simp: intersection_def zeros_at_def get_zeros_def list_of_set_Nil_iff Let_def
      filter_empty_conv split: option.splits if_splits)

lemma dom_intersection_subset: "dom (intersection A B) \<subseteq> dom A \<inter> dom B"
  by (auto simp: intersection_def split: option.splits)

lemma zeros_at_intersection:
  "zeros_at (intersection A B) b = zeros_at A b \<inter> zeros_at B b"
  by (auto simp: intersection_def zeros_at_def get_zeros_def list_of_set_Nil_iff Let_def
      zeros_only_def set_list_of_set filter_empty_conv split: option.splits if_splits)

lemma as_sets_intersection:
  "as_sets (intersection A B) b =
     (if zeros_at A b \<inter> zeros_at B b \<noteq> {} then Some (zeros_at A b \<inter> zeros_at B b)
      else None)"
  by (simp add: as_sets_eq_zeros_at dom_intersection zeros_at_intersection)

lemma intersection_Some:
  "intersection A B b = Some bk \<Longrightarrow> frequencies bk = None \<and> documents bk = None"
  by (auto simp: intersection_def zeros_only_def Let_def split: if_splits option.splits)

lemma dom_complement:
  "dom (complement A B) = {b \<in> dom A. b \<notin> dom B \<or> zeros_at A b - zeros_at B b \<noteq> {}}"
  by (auto simp: complement_def zeros_at_def get_zeros_def list_of_set_Nil_iff Let_def
      filter_empty_conv split: option.splits if_splits)

lemma zeros_at_complement: "zeros_at (complement A B) b = zeros_at A b - zeros_at B b"
  by (auto simp: complement_def zeros_at_def get_zeros_def list_of_set_Nil_iff Let_def
      zeros_only_def set_list_of_set filter_empty_conv split: option.splits if_splits)

lemma complement_absent: "b \<in> dom A \<Longrightarrow> b \<notin> dom B \<Longrightarrow> complement A B b = A b"
  by (auto simp: complement_def split: option.splits)

text \<open>
  A bucket id of both operands keeps only its \<^verbatim>\<open>"zeros"\<close> component, without duplicates.
\<close>

lemma complement_shared_zeros_only:
  assumes "A b = Some bk1" and "B b = Some bk2" and "complement A B b = Some bk"
  shows "bk = zeros_only (zeros bk) \<and> distinct (zeros bk)
         \<and> set (zeros bk) = set (zeros bk1) - set (zeros bk2)"
  using assms
  by (auto simp: complement_def Let_def zeros_only_def set_list_of_set distinct_list_of_set
      split: if_splits)

lemma complement_self: "complement A A = Map.empty"
  by (rule ext) (simp add: complement_def list_of_set_Nil_iff Let_def split: option.splits)

lemma complement_no_shared_bucket: "dom A \<inter> dom B = {} \<Longrightarrow> complement A B = A"
  by (rule ext) (auto simp: complement_def split: option.splits)

subsection \<open>Division\<close>

lemma bit_length_0: "bit_length 0 = 0"
  by (simp add: bit_length.simps)

lemma bit_length_pos: "0 < n \<Longrightarrow> bit_length n = Suc (bit_length (n div 2))"
  by (simp add: bit_length.simps [of n])

lemma bit_length_bounds:
  "0 < n \<Longrightarrow> 2 ^ (bit_length n - 1) \<le> n \<and> n < 2 ^ bit_length n"
proof (induction n rule: less_induct)
  case (less n)
  have bl: "bit_length n = Suc (bit_length (n div 2))"
    using less.prems by (rule bit_length_pos)
  show ?case
  proof (cases "n div 2 = 0")
    case True
    then have "bit_length n = 1"
      using bl by (simp add: bit_length_0)
    moreover from True less.prems have "n = 1"
      by (simp add: div_eq_0_iff)
    ultimately show ?thesis
      by simp
  next
    case False
    then have pos: "0 < n div 2"
      by simp
    have "n div 2 < n"
      using less.prems by simp
    from less.IH [OF this pos]
    have ih1: "2 ^ (bit_length (n div 2) - 1) \<le> n div 2"
      and ih2: "n div 2 < 2 ^ bit_length (n div 2)"
      by simp_all
    obtain k where k: "bit_length (n div 2) = Suc k"
      using bit_length_pos [OF pos] by blast
    have "(2::nat) ^ (bit_length n - 1) = 2 * 2 ^ k"
      using bl k by simp
    also have "\<dots> \<le> 2 * (n div 2)"
      using ih1 k by simp
    also have "\<dots> \<le> n"
      by simp
    finally have lo: "2 ^ (bit_length n - 1) \<le> n" .
    have "Suc (n div 2) \<le> 2 ^ bit_length (n div 2)"
      using ih2 by simp
    then have "2 * Suc (n div 2) \<le> 2 * 2 ^ bit_length (n div 2)"
      by simp
    moreover have "n < 2 * Suc (n div 2)"
      by presburger
    ultimately have "n < 2 ^ bit_length n"
      using bl by simp
    with lo show ?thesis
      by simp
  qed
qed

lemma two_powi_int: "(2::rat) powi int n = 2 ^ n"
  by (simp add: power_int_of_nat)

lemma two_powi_pos: "(0::rat) < 2 powi k"
  by (simp add: zero_less_power_int)

lemma two_powi_add: "(2::rat) powi (j + k) = 2 powi j * 2 powi k"
  by (simp add: power_int_add)

lemma bit_length_rat_bounds:
  assumes "0 < n"
  shows "(2::rat) powi (int (bit_length n) - 1) \<le> of_nat n"
    and "(of_nat n :: rat) < 2 powi int (bit_length n)"
proof -
  from bit_length_bounds [OF assms]
  have lo: "2 ^ (bit_length n - 1) \<le> n" and hi: "n < 2 ^ bit_length n"
    by simp_all
  obtain k where k: "bit_length n = Suc k"
    using bit_length_pos [OF assms] by blast
  have "(of_nat (2 ^ k) :: rat) \<le> of_nat n"
    using lo k by (simp only: of_nat_le_iff) simp
  then have "(2::rat) ^ k \<le> of_nat n"
    by simp
  moreover have "int (bit_length n) - 1 = int k"
    using k by simp
  ultimately show "(2::rat) powi (int (bit_length n) - 1) \<le> of_nat n"
    by (simp add: two_powi_int)
  have "(of_nat n :: rat) < of_nat (2 ^ bit_length n)"
    using hi by (simp only: of_nat_less_iff)
  then show "(of_nat n :: rat) < 2 powi int (bit_length n)"
    by (simp add: two_powi_int)
qed

lemma binade_bounds:
  assumes a: "0 < a" and b: "0 < b"
  shows "(2::rat) powi binade a b \<le> of_nat a / of_nat b"
    and "of_nat a / of_nat b < (2::rat) powi (binade a b + 1)"
proof -
  let ?q = "of_nat a / of_nat b :: rat"
  let ?d = "int (bit_length a) - int (bit_length b)"
  note ra = bit_length_rat_bounds [OF a]
  note rb = bit_length_rat_bounds [OF b]
  have bpos: "(0::rat) < of_nat b"
    using b by simp
  have lo: "(2::rat) powi (?d - 1) < ?q"
  proof -
    have "(2::rat) powi (?d - 1) * of_nat b < 2 powi (?d - 1) * 2 powi int (bit_length b)"
      using rb(2) two_powi_pos [of "?d - 1"] by (simp add: mult_strict_left_mono)
    also have "\<dots> = 2 powi ((?d - 1) + int (bit_length b))"
      by (simp only: two_powi_add)
    also have "(?d - 1) + int (bit_length b) = int (bit_length a) - 1"
      by simp
    also have "(2::rat) powi (int (bit_length a) - 1) \<le> of_nat a"
      by (rule ra(1))
    finally show ?thesis
      using bpos by (simp add: pos_less_divide_eq)
  qed
  have hi: "?q < (2::rat) powi (?d + 1)"
  proof -
    have "(of_nat a :: rat) < 2 powi int (bit_length a)"
      by (rule ra(2))
    also have "int (bit_length a) = (?d + 1) + (int (bit_length b) - 1)"
      by simp
    also have "(2::rat) powi ((?d + 1) + (int (bit_length b) - 1))
        = 2 powi (?d + 1) * 2 powi (int (bit_length b) - 1)"
      by (simp only: two_powi_add)
    also have "\<dots> \<le> 2 powi (?d + 1) * of_nat b"
      using rb(1) two_powi_pos [of "?d + 1"] by (simp add: mult_left_mono)
    finally show ?thesis
      using bpos by (simp add: pos_divide_less_eq)
  qed
  show "(2::rat) powi binade a b \<le> ?q"
    using lo by (simp add: binade_def Let_def)
  show "?q < (2::rat) powi (binade a b + 1)"
    using hi by (simp add: binade_def Let_def not_le)
qed

lemma round_half_even_cases:
  "round_half_even x = \<lfloor>x\<rfloor> \<and> x - of_int \<lfloor>x\<rfloor> \<le> 1 / 2
   \<or> round_half_even x = \<lfloor>x\<rfloor> + 1 \<and> 1 / 2 \<le> x - of_int \<lfloor>x\<rfloor>"
  unfolding round_half_even_def Let_def by auto

lemma round_half_even_upper: "of_int (round_half_even x) \<le> x + 1 / 2"
proof -
  have f: "of_int \<lfloor>x\<rfloor> \<le> x" "x < of_int \<lfloor>x\<rfloor> + 1"
    by linarith+
  consider (down) "of_int (round_half_even x) = (of_int \<lfloor>x\<rfloor> :: rat)"
      "x - of_int \<lfloor>x\<rfloor> \<le> 1 / 2"
    | (up) "of_int (round_half_even x) = (of_int \<lfloor>x\<rfloor> + 1 :: rat)"
      "1 / 2 \<le> x - of_int \<lfloor>x\<rfloor>"
    using round_half_even_cases [of x] by auto
  then show ?thesis
    using f by cases linarith+
qed

lemma round_half_even_lower: "x - 1 / 2 \<le> of_int (round_half_even x)"
proof -
  have f: "of_int \<lfloor>x\<rfloor> \<le> x" "x < of_int \<lfloor>x\<rfloor> + 1"
    by linarith+
  consider (down) "of_int (round_half_even x) = (of_int \<lfloor>x\<rfloor> :: rat)"
      "x - of_int \<lfloor>x\<rfloor> \<le> 1 / 2"
    | (up) "of_int (round_half_even x) = (of_int \<lfloor>x\<rfloor> + 1 :: rat)"
      "1 / 2 \<le> x - of_int \<lfloor>x\<rfloor>"
    using round_half_even_cases [of x] by auto
  then show ?thesis
    using f by cases linarith+
qed

lemma round_half_even_of_int: "round_half_even (of_int k) = k"
  by (simp add: round_half_even_def)

lemma round_half_even_le:
  assumes "x \<le> of_int k"
  shows "round_half_even x \<le> k"
proof (cases "x = of_int k")
  case True
  then show ?thesis
    by (simp add: round_half_even_of_int)
next
  case False
  with assms have "x < of_int k"
    by simp
  then have "\<lfloor>x\<rfloor> < k"
    by (simp add: floor_less_iff)
  with round_half_even_cases [of x] show ?thesis
    by auto
qed

lemma round_half_even_ge:
  assumes "of_int k \<le> x"
  shows "k \<le> round_half_even x"
proof -
  from assms have "k \<le> \<lfloor>x\<rfloor>"
    by (simp add: le_floor_iff)
  with round_half_even_cases [of x] show ?thesis
    by auto
qed

lemma binade_le_0:
  assumes "0 < a" and "a \<le> b"
  shows "binade a b \<le> 0"
proof (rule ccontr)
  assume "\<not> binade a b \<le> 0"
  then have "1 \<le> binade a b"
    by simp
  then have "(2::rat) powi 1 \<le> 2 powi binade a b"
    by (rule power_int_increasing) simp
  also have "\<dots> \<le> of_nat a / of_nat b"
    using assms by (intro binade_bounds) simp_all
  also have "\<dots> \<le> 1"
    using assms by simp
  finally show False
    by simp
qed

lemma nearest_double_nonneg: "0 \<le> nearest_double a b"
proof (cases "a = 0")
  case True
  then show ?thesis
    by (simp add: nearest_double_def)
next
  case False
  let ?ulp = "(2::rat) powi (max (binade a b) (- 1022) - 52)"
  have "(of_int 0 :: rat) \<le> of_nat a / of_nat b / ?ulp"
    using two_powi_pos [of "max (binade a b) (- 1022) - 52"] by simp
  then have "0 \<le> round_half_even (of_nat a / of_nat b / ?ulp)"
    by (rule round_half_even_ge)
  then show ?thesis
    using False two_powi_pos [of "max (binade a b) (- 1022) - 52"]
    by (simp add: nearest_double_def Let_def)
qed

lemma nearest_double_unfold:
  assumes "0 < a" and "e = max (binade a b) (- 1022)"
  shows "nearest_double a b
         = of_int (round_half_even (of_nat a / of_nat b / 2 powi (e - 52))) * 2 powi (e - 52)"
  using assms by (simp add: nearest_double_def Let_def)

lemma nearest_double_le_one:
  assumes a: "0 < a" and ab: "a \<le> b"
  shows "nearest_double a b \<le> 1"
proof -
  define e where "e = max (binade a b) (- 1022)"
  define ulp :: rat where "ulp = 2 powi (e - 52)"
  define n where "n = nat (52 - e)"
  have e: "e \<le> 0"
    using binade_le_0 [OF a ab] by (simp add: e_def)
  have ulp: "0 < ulp"
    unfolding ulp_def by (rule two_powi_pos)
  have "(2::rat) powi (- (e - 52)) = inverse ulp"
    unfolding ulp_def by (rule power_int_minus)
  moreover have "- (e - 52) = int n"
    using e by (simp add: n_def)
  ultimately have inv: "1 / ulp = of_int (2 ^ n)"
    by (simp add: two_powi_int divide_inverse)
  have "of_nat a / of_nat b \<le> (1::rat)"
    using a ab by simp
  then have "of_nat a / of_nat b / ulp \<le> 1 / ulp"
    by (rule divide_right_mono) (use ulp in simp)
  then have "round_half_even (of_nat a / of_nat b / ulp) \<le> 2 ^ n"
    unfolding inv by (rule round_half_even_le)
  then have "(of_int (round_half_even (of_nat a / of_nat b / ulp)) :: rat) \<le> of_int (2 ^ n)"
    by (simp only: of_int_le_iff)
  then have "of_int (round_half_even (of_nat a / of_nat b / ulp)) * ulp \<le> of_int (2 ^ n) * ulp"
    using ulp by (simp add: mult_right_mono)
  also have "of_int (2 ^ n) * ulp = 1"
    using inv ulp by (simp add: field_simps)
  finally show ?thesis
    unfolding ulp_def by (simp add: nearest_double_unfold [OF a e_def])
qed

text \<open>Half a unit in the last place.\<close>

lemma nearest_double_error:
  assumes a: "0 < a"
  shows "\<bar>nearest_double a b - of_nat a / of_nat b\<bar>
         \<le> 2 powi (max (binade a b) (- 1022) - 53)"
proof -
  define e where "e = max (binade a b) (- 1022)"
  define ulp :: rat where "ulp = 2 powi (e - 52)"
  define q :: rat where "q = of_nat a / of_nat b"
  define r :: rat where "r = of_int (round_half_even (q / ulp))"
  have ulp: "0 < ulp"
    unfolding ulp_def by (rule two_powi_pos)
  have half: "r \<le> x + 1 / 2 \<Longrightarrow> x - 1 / 2 \<le> r \<Longrightarrow> \<bar>r - x\<bar> \<le> 1 / 2" for r x :: rat
    by linarith
  have "\<bar>r - q / ulp\<bar> \<le> 1 / 2"
    unfolding r_def by (rule half [OF round_half_even_upper round_half_even_lower])
  then have "\<bar>r - q / ulp\<bar> * ulp \<le> 1 / 2 * ulp"
    using ulp by (simp add: mult_right_mono)
  moreover have "\<bar>r - q / ulp\<bar> * ulp = \<bar>r * ulp - q\<bar>"
  proof -
    have "\<bar>r - q / ulp\<bar> * ulp = \<bar>(r - q / ulp) * ulp\<bar>"
      using ulp by (simp add: abs_mult)
    also have "(r - q / ulp) * ulp = r * ulp - q"
      using ulp by (simp add: left_diff_distrib)
    finally show ?thesis .
  qed
  moreover have "1 / 2 * ulp = 2 powi (e - 53)"
  proof -
    have "e - 52 = (e - 53) + 1"
      by simp
    then have "ulp = 2 powi (e - 53) * 2 powi 1"
      unfolding ulp_def by (simp only: two_powi_add)
    then show ?thesis
      by simp
  qed
  ultimately have "\<bar>r * ulp - q\<bar> \<le> 2 powi (e - 53)"
    by simp
  then show ?thesis
    unfolding r_def q_def ulp_def e_def [symmetric]
    by (simp add: nearest_double_unfold [OF a e_def] e_def)
qed

text \<open>The doubles Python prints as 0.5, 0.3333333333333333 and 0.6666666666666666.\<close>

lemma nearest_double_1_2: "nearest_double 1 2 = 1 / 2"
  by code_simp

lemma nearest_double_1_3: "nearest_double 1 3 = 6004799503160661 / 18014398509481984"
  by code_simp

lemma nearest_double_2_3: "nearest_double 2 3 = 6004799503160661 / 9007199254740992"
  by code_simp

lemma truediv_1_3: "truediv 1 3 = Inr (6004799503160661 / 18014398509481984)"
  by code_simp

text \<open>A quotient of at most 1 does not overflow.\<close>

lemma truediv_le_one:
  assumes "0 < b" and "a \<le> b"
  shows "truediv a b = Inr (nearest_double a b)"
proof (cases "a = 0")
  case True
  with assms show ?thesis
    by (simp add: truediv_def nearest_double_def)
next
  case False
  then have "nearest_double a b \<le> 1"
    using assms by (intro nearest_double_le_one) simp_all
  moreover have "(1::rat) < 2 ^ 1024"
    by simp
  ultimately have "\<not> 2 ^ 1024 \<le> nearest_double a b"
    by linarith
  with assms show ?thesis
    by (simp add: truediv_def Let_def)
qed

subsection \<open>The estimator on a mostly-empty sketch\<close>

lemma alpha_m_bounds: "0 < alpha_m m \<and> alpha_m m \<le> 1"
proof -
  define d :: real where "d = 1 + 1079 / 1000 / real m"
  have d: "1 \<le> d"
    by (simp add: d_def)
  then have dpos: "0 < d"
    by linarith
  have "7213 / 10000 \<le> 1 * d"
    using d by linarith
  then have "7213 / 10000 / d \<le> 1"
    using dpos by (simp only: pos_divide_le_eq)
  moreover have "0 < 7213 / 10000 / d"
    using dpos by simp
  ultimately have "0 < 7213 / 10000 / d \<and> 7213 / 10000 / d \<le> 1"
    by (rule conjI [rotated])
  then show ?thesis
    unfolding alpha_m_def d_def [symmetric] by simp
qed

lemma statistic_sum_ge_empty:
  "real (length (filter (\<lambda>j. empty_bucket h (int j)) js))
     \<le> (\<Sum>j \<leftarrow> js. 2 powi (- bucket_statistic h (int j)))"
proof (induction js)
  case Nil
  then show ?case by simp
next
  case (Cons j js)
  show ?case
  proof (cases "empty_bucket h (int j)")
    case True
    then have "bucket_statistic h (int j) = 0"
      by (auto simp: empty_bucket_def bucket_statistic_def split: option.splits)
    with True Cons show ?thesis
      by simp
  next
    case False
    have "(0::real) \<le> 2 powi (- bucket_statistic h (int j))"
      by (rule zero_le_power_int) simp
    from add_increasing [OF this Cons.IH] False show ?thesis
      by simp
  qed
qed

lemma raw_estimate_small:
  assumes "2 * 2 ^ p \<le> 5 * empty_buckets p h"
  shows "raw_estimate p h \<le> 5 / 2 * 2 ^ p"
proof -
  define m :: nat where "m = 2 ^ p"
  define V where "V = empty_buckets p h"
  define Z :: real where "Z = (\<Sum>j \<leftarrow> [0 ..< m]. 2 powi (- bucket_statistic h (int j)))"
  have mpos: "0 < m"
    by (simp add: m_def)
  have VZ: "real V \<le> Z"
    unfolding V_def Z_def empty_buckets_def m_def by (rule statistic_sum_ge_empty)
  have "2 * m \<le> 5 * V"
    using assms by (simp add: m_def V_def)
  then have "real (2 * m) \<le> real (5 * V)"
    by (simp only: of_nat_le_iff)
  then have V: "2 * real m \<le> 5 * real V"
    by simp
  then have Vpos: "0 < real V"
    using mpos by simp
  with VZ have Zpos: "0 < Z"
    by simp
  have "real m / Z \<le> real m / real V"
    using VZ Vpos by (simp add: frac_le)
  also have "\<dots> \<le> 5 / 2"
    using V Vpos by (simp add: field_simps)
  finally have "real m / Z \<le> 5 / 2" .
  moreover have "0 \<le> real m / Z"
    using Zpos by simp
  ultimately have "alpha_m m * (real m / Z) \<le> 1 * (5 / 2)"
    using alpha_m_bounds [of m] by (intro mult_mono) simp_all
  then have "alpha_m m * (real m / Z) * real m \<le> 1 * (5 / 2) * real m"
    by (rule mult_right_mono) simp
  moreover have "raw_estimate p h = alpha_m m * (real m / Z) * real m"
    unfolding raw_estimate_def Let_def m_def [symmetric] Z_def [symmetric] by simp
  ultimately show ?thesis
    by (simp add: m_def)
qed

lemma count_linear_counting:
  assumes "2 * 2 ^ p \<le> 5 * empty_buckets p h"
  shows "count p h = 2 ^ p * ln (2 ^ p / real (empty_buckets p h))"
proof -
  have "0 < empty_buckets p h"
    using assms by (cases "empty_buckets p h") simp_all
  with raw_estimate_small [OF assms] show ?thesis
    by (simp add: count_def Let_def)
qed

lemma empty_buckets_empty: "empty_buckets p Map.empty = 2 ^ p"
  by (simp add: empty_buckets_def empty_bucket_def)

lemma count_empty: "count p Map.empty = 0"
  using count_linear_counting [of p Map.empty] by (simp add: empty_buckets_empty)

subsection \<open>Sizes\<close>

lemma finite_dom_operations:
  assumes "finite (dom A)"
  shows "finite (dom B) \<Longrightarrow> finite (dom (union_hll A B))"
    and "finite (dom (intersection A B))"
    and "finite (dom (complement A B))"
proof -
  show "finite (dom B) \<Longrightarrow> finite (dom (union_hll A B))"
    using assms by (simp add: dom_union_hll)
  have "dom (intersection A B) \<subseteq> dom A"
    using dom_intersection_subset [of A B] by blast
  then show "finite (dom (intersection A B))"
    using assms by (rule finite_subset)
  have "dom (complement A B) \<subseteq> dom A"
    by (auto simp: dom_complement)
  then show "finite (dom (complement A B))"
    using assms by (rule finite_subset)
qed

lemma union_hll_empty: "union_hll Map.empty Map.empty = Map.empty"
  by (rule ext) (simp add: union_hll_def)

lemma intersection_empty: "intersection Map.empty Map.empty = Map.empty"
  by (rule ext) (simp add: intersection_def)

lemma len_union_hll: "len (union_hll A B) = card (dom A \<union> dom B)"
  by (simp add: len_def dom_union_hll)

lemma len_intersection: "len (intersection A B) = card {b. zeros_at A b \<inter> zeros_at B b \<noteq> {}}"
  by (simp add: len_def dom_intersection)

lemma len_intersection_le_union:
  assumes "0 < len (union_hll A B)"
  shows "len (intersection A B) \<le> len (union_hll A B)"
proof -
  have "dom (intersection A B) \<subseteq> dom (union_hll A B)"
    using dom_intersection_subset [of A B] by (auto simp: dom_union_hll)
  moreover have "finite (dom (union_hll A B))"
    using assms by (simp add: len_def card_gt_0_iff)
  ultimately show ?thesis
    unfolding len_def by (rule card_mono [rotated])
qed

text \<open>The similarity is a number between 0 and 1.\<close>

lemma jaccard_similarity_range:
  "\<exists>q. jaccard_similarity A B = Inr q \<and> 0 \<le> q \<and> q \<le> 1"
proof (cases "0 < len (union_hll A B)")
  case True
  then have le: "len (intersection A B) \<le> len (union_hll A B)"
    by (rule len_intersection_le_union)
  have "nearest_double (len (intersection A B)) (len (union_hll A B)) \<le> 1"
  proof (cases "len (intersection A B) = 0")
    case True
    then show ?thesis
      by (simp add: nearest_double_def)
  next
    case False
    with le show ?thesis
      by (intro nearest_double_le_one) simp_all
  qed
  with True le show ?thesis
    by (simp add: jaccard_similarity_def Let_def truediv_le_one nearest_double_nonneg)
next
  case False
  then show ?thesis
    by (simp add: jaccard_similarity_def Let_def)
qed

subsection \<open>The bucket of a hash value\<close>

lemma and_low_bits_eq_take_bit:
  fixes k :: int
  shows "k AND (2 ^ p - 1) = take_bit p k"
  by (simp add: take_bit_eq_mask mask_eq_exp_minus_1)

lemma take_bit_drop_bit_top:
  fixes h :: int
  assumes "p \<le> 64"
  shows "take_bit p (drop_bit (64 - p) h) = (h mod 2 ^ 64) div 2 ^ (64 - p)"
proof -
  have "take_bit p (drop_bit (64 - p) h) = drop_bit (64 - p) (take_bit 64 h)"
    using assms by (simp add: drop_bit_take_bit)
  also have "\<dots> = (h mod 2 ^ 64) div 2 ^ (64 - p)"
    by (simp add: drop_bit_eq_div take_bit_eq_mod)
  finally show ?thesis .
qed

lemma bucket_index_take_bit:
  assumes "0 \<le> p" and "p \<le> 64"
  shows "bucket_index hash_val p = Inr (take_bit (nat p) (drop_bit (64 - nat p) hash_val))"
  using assms
  by (simp add: bucket_index_def rshift_def lshift_def and_low_bits_eq_take_bit
      nat_diff_distrib)

text \<open>
  Outside \<open>0 \<le> p \<le> 64\<close> one of the two shift counts is negative and the line raises.
\<close>

lemma bucket_index_negative_shift:
  "p < 0 \<or> 64 < p \<Longrightarrow> bucket_index hash_val p = Inl ValueError"
  by (auto simp: bucket_index_def rshift_def lshift_def)

text \<open>
  A hash value outside \<open>[0, 2 ^ 64)\<close> (a negative Python int, say) is cut to its low 64
  bits by the mask: the bucket is bits \<open>64 - p\<close> to \<open>63\<close> of its two's complement.
\<close>

lemma bucket_index_any_int:
  assumes "0 \<le> p" and "p \<le> 64"
  shows "bucket_index hash_val p = Inr ((hash_val mod 2 ^ 64) div 2 ^ (64 - nat p))"
proof -
  have "nat p \<le> 64"
    using assms by simp
  then show ?thesis
    using assms by (simp add: bucket_index_take_bit take_bit_drop_bit_top)
qed

lemma bucket_index_in_range:
  assumes "0 \<le> p" and "p \<le> 64"
  shows "\<exists>b. bucket_index hash_val p = Inr b \<and> 0 \<le> b \<and> b < 2 ^ nat p"
  using assms by (simp add: bucket_index_take_bit)

subsection \<open>One step of ingestion\<close>

lemma ingest_token_raises:
  "bucket_index (hf token) p = Inl e \<Longrightarrow> ingest_token hf ctz p doc_id hllset token = Inl e"
  by (simp add: ingest_token_def)

lemma ingest_token_new_bucket:
  assumes "bucket_index (hf token) p = Inr b" and "hllset b = None"
  shows "ingest_token hf ctz p doc_id hllset token =
           Inr (hllset(b \<mapsto> \<lparr>zeros = [ctz (hf token)], frequencies = Some [1],
                                documents = Some [doc_id]\<rparr>))"
  using assms by (simp add: ingest_token_def domIff)

lemma ingest_token_old_bucket:
  assumes "bucket_index (hf token) p = Inr b" and "hllset b = Some bk"
  shows "ingest_token hf ctz p doc_id hllset token =
           (case (frequencies bk, documents bk) of
              (Some fs, Some ds) \<Rightarrow>
                Inr (hllset(b \<mapsto> \<lparr>zeros = zeros bk @ [ctz (hf token)],
                                     frequencies = Some (fs @ [1]),
                                     documents = Some (ds @ [doc_id])\<rparr>))
            | _ \<Rightarrow> Inl KeyError)"
  using assms by (simp add: ingest_token_def domIff)

subsection \<open>Ingestion returns a sketch\<close>

lemma ingested_empty: "ingested p Map.empty"
  by (simp add: ingested_def has_metadata_def)

lemma ingest_token_returns:
  assumes p: "0 \<le> p" "p \<le> 64" and inv: "ingested p hllset"
  shows "\<exists>hllset1. ingest_token hf ctz p doc_id hllset token = Inr hllset1 \<and> ingested p hllset1"
proof -
  from bucket_index_in_range [OF p, of "hf token"]
  obtain b where b: "bucket_index (hf token) p = Inr b" and range: "0 \<le> b" "b < 2 ^ nat p"
    by blast
  show ?thesis
  proof (cases "hllset b")
    case None
    with b have "ingest_token hf ctz p doc_id hllset token =
        Inr (hllset(b \<mapsto> \<lparr>zeros = [ctz (hf token)], frequencies = Some [1],
                             documents = Some [doc_id]\<rparr>))"
      by (simp add: ingest_token_new_bucket)
    with inv range show ?thesis
      by (auto simp: ingested_def has_metadata_def)
  next
    case (Some bk)
    with inv have "frequencies bk \<noteq> None \<and> documents bk \<noteq> None"
      unfolding ingested_def has_metadata_def by blast
    then obtain fs ds where md: "frequencies bk = Some fs" "documents bk = Some ds"
      by auto
    with b Some have "ingest_token hf ctz p doc_id hllset token =
        Inr (hllset(b \<mapsto> \<lparr>zeros = zeros bk @ [ctz (hf token)],
                             frequencies = Some (fs @ [1]),
                             documents = Some (ds @ [doc_id])\<rparr>))"
      by (simp add: ingest_token_old_bucket)
    with inv range show ?thesis
      by (auto simp: ingested_def has_metadata_def)
  qed
qed

lemma ingest_tokens_returns:
  assumes p: "0 \<le> p" "p \<le> 64"
  shows "ingested p hllset \<Longrightarrow>
         \<exists>hllset1. ingest_tokens hf ctz p doc_id hllset tokens = Inr hllset1 \<and> ingested p hllset1"
proof (induction tokens arbitrary: hllset)
  case Nil
  then show ?case by simp
next
  case (Cons token tokens)
  from ingest_token_returns [OF p Cons.prems, of hf ctz doc_id token]
  obtain h1 where h1: "ingest_token hf ctz p doc_id hllset token = Inr h1" "ingested p h1"
    by blast
  from Cons.IH [OF h1(2)] h1(1) show ?case
    by simp
qed

lemma ingest_documents_returns:
  assumes p: "0 \<le> p" "p \<le> 64"
  shows "ingested p hllset \<Longrightarrow>
         \<exists>hllset1. ingest_documents tokenize hf ctz p doc_id hllset docs = Inr hllset1
           \<and> ingested p hllset1"
proof (induction docs arbitrary: hllset doc_id)
  case Nil
  then show ?case by simp
next
  case (Cons document docs)
  from ingest_tokens_returns [OF p Cons.prems, of hf ctz doc_id "tokenize document"]
  obtain h1 where h1: "ingest_tokens hf ctz p doc_id hllset (tokenize document) = Inr h1"
    "ingested p h1"
    by blast
  from Cons.IH [OF h1(2), of "doc_id + 1"] h1(1) show ?case
    by simp
qed

text \<open>
  For \<open>0 \<le> p \<le> 64\<close> ingestion returns a sketch, whatever the documents and the hash
  function: every bucket has its three lists, and every bucket id lies in \<open>[0, 2 ^ p)\<close>.
  For any other \<open>p\<close> the first token raises ValueError.
\<close>

lemma ingest_dataset_returns:
  assumes "0 \<le> p" and "p \<le> 64"
  shows "\<exists>hllset. ingest_dataset tokenize hf ctz docs p = Inr hllset \<and> ingested p hllset"
  using ingest_documents_returns [OF assms ingested_empty, of tokenize hf ctz 0 docs]
  by (simp add: ingest_dataset_def)

subsection \<open>Ingestion on concrete documents\<close>

text \<open>
  In the examples a document is the list of its tokens and a token is its own hash value:
  \<^verbatim>\<open>tokenize\<close> and \<^verbatim>\<open>hash_function\<close> are the identity. The hash value 1 falls in bucket 0
  at precision 4 with no trailing zero; the hash value 2 in bucket 0 with one. The hash
  value \<open>2 ^ 63 + 1\<close> falls in bucket 1 at precision 1 and in bucket 2 at precision 2.
\<close>

lemma bucket_index_1_4: "bucket_index 1 4 = Inr 0"
  by (simp add: bucket_index_def rshift_def lshift_def drop_bit_eq_div)

lemma bucket_index_2_4: "bucket_index 2 4 = Inr 0"
  by (simp add: bucket_index_def rshift_def lshift_def drop_bit_eq_div)

lemma bucket_index_top_1: "bucket_index 9223372036854775809 1 = Inr 1"
  by (simp add: bucket_index_def rshift_def lshift_def drop_bit_eq_div)

lemma bucket_index_top_2: "bucket_index 9223372036854775809 2 = Inr 2"
  by (simp add: bucket_index_def rshift_def lshift_def drop_bit_eq_div)

lemma count_trailing_zeros_1: "count_trailing_zeros 1 = 0"
  by (simp add: count_trailing_zeros_def trailing_zeros_upto_odd)

lemma count_trailing_zeros_2: "count_trailing_zeros 2 = 1"
  by (simp add: count_trailing_zeros_def eval_nat_numeral)

lemma count_trailing_zeros_top: "count_trailing_zeros 9223372036854775809 = 0"
  by (simp add: count_trailing_zeros_def trailing_zeros_upto_odd)

lemma ingest_token_first:
  "ingest_token id count_trailing_zeros 4 0 Map.empty 1
     = Inr [0 \<mapsto> \<lparr>zeros = [0], frequencies = Some [1], documents = Some [0]\<rparr>]"
  by (simp add: ingest_token_new_bucket bucket_index_1_4 count_trailing_zeros_1)

lemma ingest_token_second:
  "ingest_token id count_trailing_zeros 4 0
       [0 \<mapsto> \<lparr>zeros = [0], frequencies = Some [1], documents = Some [0]\<rparr>] 1
     = Inr [0 \<mapsto> \<lparr>zeros = [0, 0], frequencies = Some [1, 1], documents = Some [0, 0]\<rparr>]"
  by (simp add: ingest_token_old_bucket bucket_index_1_4 count_trailing_zeros_1)

lemma ingest_dataset_once:
  "ingest_dataset id id count_trailing_zeros [[1]] 4
     = Inr [0 \<mapsto> \<lparr>zeros = [0], frequencies = Some [1], documents = Some [0]\<rparr>]"
  by (simp add: ingest_dataset_def ingest_token_first)

lemma ingest_dataset_twice:
  "ingest_dataset id id count_trailing_zeros [[1, 1]] 4
     = Inr [0 \<mapsto> \<lparr>zeros = [0, 0], frequencies = Some [1, 1], documents = Some [0, 0]\<rparr>]"
  by (simp add: ingest_dataset_def ingest_token_first ingest_token_second)

lemma ingest_dataset_other:
  "ingest_dataset id id count_trailing_zeros [[2]] 4
     = Inr [0 \<mapsto> \<lparr>zeros = [1], frequencies = Some [1], documents = Some [0]\<rparr>]"
  by (simp add: ingest_dataset_def ingest_token_new_bucket bucket_index_2_4
      count_trailing_zeros_2)

lemma ingest_dataset_precision_1:
  "ingest_dataset id id count_trailing_zeros [[9223372036854775809]] 1
     = Inr [1 \<mapsto> \<lparr>zeros = [0], frequencies = Some [1], documents = Some [0]\<rparr>]"
  by (simp add: ingest_dataset_def ingest_token_new_bucket bucket_index_top_1
      count_trailing_zeros_top)

lemma ingest_dataset_precision_2:
  "ingest_dataset id id count_trailing_zeros [[9223372036854775809]] 2
     = Inr [2 \<mapsto> \<lparr>zeros = [0], frequencies = Some [1], documents = Some [0]\<rparr>]"
  by (simp add: ingest_dataset_def ingest_token_new_bucket bucket_index_top_2
      count_trailing_zeros_top)

lemma singleton_sketch_neq:
  fixes b :: int
  shows "bk \<noteq> bk' \<Longrightarrow> [b \<mapsto> bk] \<noteq> [b \<mapsto> (bk' :: bucket)]"
  by (auto dest: map_upd_eqD1)

subsection \<open>The similarity and the estimator on concrete sketches\<close>

text \<open>
  The hash value \<open>2 ^ 60 + 1\<close> falls in bucket 1 at precision 4, with no trailing zero.
\<close>

lemma bucket_index_second: "bucket_index 1152921504606846977 4 = Inr 1"
  by (simp add: bucket_index_def rshift_def lshift_def drop_bit_eq_div)

lemma count_trailing_zeros_second: "count_trailing_zeros 1152921504606846977 = 0"
  by (simp add: count_trailing_zeros_def trailing_zeros_upto_odd)

lemma ingest_dataset_two_buckets:
  "ingest_dataset id id count_trailing_zeros [[1, 1152921504606846977]] 4
     = Inr [0 \<mapsto> \<lparr>zeros = [0], frequencies = Some [1], documents = Some [0]\<rparr>,
            1 \<mapsto> \<lparr>zeros = [0], frequencies = Some [1], documents = Some [0]\<rparr>]"
  by (simp add: ingest_dataset_def ingest_token_first ingest_token_new_bucket
      bucket_index_second count_trailing_zeros_second)

lemma intersection_two_one:
  "intersection
     [0 \<mapsto> \<lparr>zeros = [0], frequencies = Some [1], documents = Some [0]\<rparr>,
      1 \<mapsto> \<lparr>zeros = [0], frequencies = Some [1], documents = Some [0]\<rparr>]
     [0 \<mapsto> \<lparr>zeros = [0], frequencies = Some [1], documents = Some [0]\<rparr>]
   = [0 \<mapsto> zeros_only [0]]"
  by (rule ext) (simp add: intersection_def list_of_set_def)

lemma union_two_one:
  "union_hll
     [0 \<mapsto> \<lparr>zeros = [0], frequencies = Some [1], documents = Some [0]\<rparr>,
      1 \<mapsto> \<lparr>zeros = [0], frequencies = Some [1], documents = Some [0]\<rparr>]
     [0 \<mapsto> \<lparr>zeros = [0], frequencies = Some [1], documents = Some [0]\<rparr>]
   = [0 \<mapsto> zeros_only [0], 1 \<mapsto> zeros_only [0]]"
  by (rule ext) (simp add: union_hll_def get_zeros_def list_of_set_def)

lemma empty_buckets_one: "empty_buckets 4 [0 \<mapsto> zeros_only [0]] = 15"
  by code_simp

lemma empty_buckets_two: "empty_buckets 4 [0 \<mapsto> zeros_only [0], 1 \<mapsto> zeros_only [0]] = 14"
  by code_simp

lemma count_one: "count 4 [0 \<mapsto> zeros_only [0]] = 16 * ln (16 / 15)"
  using count_linear_counting [of 4 "[0 \<mapsto> zeros_only [0]]"]
  by (simp add: empty_buckets_one)

lemma count_two: "count 4 [0 \<mapsto> zeros_only [0], 1 \<mapsto> zeros_only [0]] = 16 * ln (8 / 7)"
  using count_linear_counting [of 4 "[0 \<mapsto> zeros_only [0], 1 \<mapsto> zeros_only [0]]"]
  by (simp add: empty_buckets_two)

lemma ln_ratio_not_half: "ln (16 / 15) / ln (8 / 7) \<noteq> (1 / 2 :: real)"
proof
  assume eq: "ln (16 / 15) / ln (8 / 7) = (1 / 2 :: real)"
  have pos: "0 < ln (8 / 7 :: real)"
    by simp
  from eq pos have "2 * ln (16 / 15) = ln (8 / 7 :: real)"
    by (simp add: field_simps)
  moreover have "2 * ln (16 / 15 :: real) = ln ((16 / 15) ^ 2)"
    by (simp add: ln_realpow)
  ultimately have l: "ln ((16 / 15) ^ 2 :: real) = ln (8 / 7)"
    by simp
  have p1: "0 < ((16 / 15) ^ 2 :: real)" and p2: "0 < (8 / 7 :: real)"
    by simp_all
  from ln_inj_iff [THEN iffD1, OF p1 p2 l] have "((16 / 15) ^ 2 :: real) = 8 / 7" .
  then show False
    by (simp add: power2_eq_square)
qed

lemma len_one: "len [0 \<mapsto> zeros_only [0]] = 1"
  by (simp add: len_def)

lemma len_two: "len [0 \<mapsto> zeros_only [0], 1 \<mapsto> zeros_only [0]] = 2"
  by (simp add: len_def)

lemma ingest_token_same_bucket:
  "ingest_token id count_trailing_zeros 4 0
       [0 \<mapsto> \<lparr>zeros = [0], frequencies = Some [1], documents = Some [0]\<rparr>] 2
     = Inr [0 \<mapsto> \<lparr>zeros = [0, 1], frequencies = Some [1, 1], documents = Some [0, 0]\<rparr>]"
  by (simp add: ingest_token_old_bucket bucket_index_2_4 count_trailing_zeros_2)

lemma ingest_dataset_one_bucket:
  "ingest_dataset id id count_trailing_zeros [[1, 2]] 4
     = Inr [0 \<mapsto> \<lparr>zeros = [0, 1], frequencies = Some [1, 1], documents = Some [0, 0]\<rparr>]"
  by (simp add: ingest_dataset_def ingest_token_first ingest_token_same_bucket)

lemma nearest_double_Suc_0_2: "nearest_double (Suc 0) 2 = 1 / 2"
  by code_simp

lemma nearest_double_1_1: "nearest_double (Suc 0) (Suc 0) = 1"
  by code_simp

text \<open>
  The registers that \<^verbatim>\<open>hll_sets.ipynb\<close> prints for its first sketch (precision 5), read as
  a sketch with bit \<open>i\<close> of a register for the trailing-zero count \<open>i\<close>: 9 of the 32
  buckets are not empty, and the notebook prints the count 11. The modelled estimator
  gives \<open>32 * ln (32 / 23)\<close>, which lies between 10 and 12.
\<close>

lemma empty_buckets_notebook:
  "empty_buckets 5
     [1 \<mapsto> zeros_only [0, 3], 3 \<mapsto> zeros_only [2], 4 \<mapsto> zeros_only [0],
      6 \<mapsto> zeros_only [0], 7 \<mapsto> zeros_only [2], 10 \<mapsto> zeros_only [2],
      22 \<mapsto> zeros_only [0], 27 \<mapsto> zeros_only [0], 30 \<mapsto> zeros_only [2]] = 23"
  by code_simp

lemma ln_32_23_bounds: "5 / 16 < ln (32 / 23 :: real)" "ln (32 / 23 :: real) < 3 / 8"
proof -
  have b: "exp (5 / 64 :: real) \<le> 1 + 5 / 64 + (5 / 64)\<^sup>2"
    by (rule exp_bound) simp_all
  have "exp (5 / 16 :: real) = exp (5 / 64) ^ 4"
    using exp_of_nat_mult [of 4 "5 / 64 :: real"] by simp
  also have "\<dots> \<le> (1 + 5 / 64 + (5 / 64)\<^sup>2) ^ 4"
    using b by (rule power_mono) simp
  also have "\<dots> < (32 / 23 :: real)"
    by (simp add: power2_eq_square power4_eq_xxxx)
  finally have "exp (5 / 16 :: real) < exp (ln (32 / 23))"
    by simp
  then show "5 / 16 < ln (32 / 23 :: real)"
    by (simp only: exp_less_cancel_iff)
  have "(32 / 23 :: real) < 1 + 3 / 8 + (3 / 8)\<^sup>2 / 2"
    by (simp add: power2_eq_square)
  also have "\<dots> \<le> exp (3 / 8)"
    by (rule exp_lower_Taylor_quadratic) simp
  finally have "exp (ln (32 / 23 :: real)) < exp (3 / 8)"
    by simp
  then show "ln (32 / 23 :: real) < 3 / 8"
    by (simp only: exp_less_cancel_iff)
qed

lemma count_notebook:
  "10 < count 5
     [1 \<mapsto> zeros_only [0, 3], 3 \<mapsto> zeros_only [2], 4 \<mapsto> zeros_only [0],
      6 \<mapsto> zeros_only [0], 7 \<mapsto> zeros_only [2], 10 \<mapsto> zeros_only [2],
      22 \<mapsto> zeros_only [0], 27 \<mapsto> zeros_only [0], 30 \<mapsto> zeros_only [2]]
   \<and> count 5
     [1 \<mapsto> zeros_only [0, 3], 3 \<mapsto> zeros_only [2], 4 \<mapsto> zeros_only [0],
      6 \<mapsto> zeros_only [0], 7 \<mapsto> zeros_only [2], 10 \<mapsto> zeros_only [2],
      22 \<mapsto> zeros_only [0], 27 \<mapsto> zeros_only [0], 30 \<mapsto> zeros_only [2]] < 12
   \<and> len
     [1 \<mapsto> zeros_only [0, 3], 3 \<mapsto> zeros_only [2], 4 \<mapsto> zeros_only [0],
      6 \<mapsto> zeros_only [0], 7 \<mapsto> zeros_only [2], 10 \<mapsto> zeros_only [2],
      22 \<mapsto> zeros_only [0], 27 \<mapsto> zeros_only [0], 30 \<mapsto> zeros_only [2]] = 9"
proof -
  let ?h = "[(1::int) \<mapsto> zeros_only [0, 3], 3 \<mapsto> zeros_only [2], 4 \<mapsto> zeros_only [0],
      6 \<mapsto> zeros_only [0], 7 \<mapsto> zeros_only [2], 10 \<mapsto> zeros_only [2],
      22 \<mapsto> zeros_only [0], 27 \<mapsto> zeros_only [0], 30 \<mapsto> zeros_only [2]]"
  have "count 5 ?h = 32 * ln (32 / 23)"
    using count_linear_counting [of 5 ?h] by (simp add: empty_buckets_notebook)
  moreover have "len ?h = 9"
    by (simp add: len_def)
  ultimately show ?thesis
    using ln_32_23_bounds by simp
qed

section \<open>The claims\<close>

subsection \<open>Similarity\<close>

text \<open>
  C1, as amended. \<open>jaccard_similarity\<close> of two sketches is the number of bucket ids of
  their intersection sketch divided by the number of bucket ids of their union sketch, as
  Python divides two ints (the double nearest to the quotient), and 0 when the union
  sketch has no bucket id. The two sizes are \<^verbatim>\<open>len\<close> of the two dicts: counts of buckets,
  not estimates of cardinality. For the union these are the bucket ids of either operand,
  for the intersection the bucket ids where the operands have a trailing-zero count in
  common. The function always returns a number: the division is guarded and cannot
  overflow.
\<close>

theorem jaccard_similarity_ratio:
  "jaccard_similarity A B =
     Inr (if len (union_hll A B) = 0 then 0
          else nearest_double (len (intersection A B)) (len (union_hll A B)))
   \<and> len (union_hll A B) = card (dom A \<union> dom B)
   \<and> len (intersection A B) = card {b. zeros_at A b \<inter> zeros_at B b \<noteq> {}}"
proof (intro conjI)
  show "jaccard_similarity A B =
     Inr (if len (union_hll A B) = 0 then 0
          else nearest_double (len (intersection A B)) (len (union_hll A B)))"
  proof (cases "0 < len (union_hll A B)")
    case True
    then have "len (intersection A B) \<le> len (union_hll A B)"
      by (rule len_intersection_le_union)
    with True show ?thesis
      by (simp add: jaccard_similarity_def Let_def truediv_le_one)
  next
    case False
    then show ?thesis
      by (simp add: jaccard_similarity_def Let_def)
  qed
  show "len (union_hll A B) = card (dom A \<union> dom B)"
    by (rule len_union_hll)
  show "len (intersection A B) = card {b. zeros_at A b \<inter> zeros_at B b \<noteq> {}}"
    by (rule len_intersection)
qed

text \<open>
  The theorem at work, on the sketches of the documents \<open>[1, 2]\<close> and \<open>[1]\<close> at precision
  4: both tokens fall in bucket 0, the intersection and the union have that one bucket, and
  the similarity of the two sketches is 1.
\<close>

theorem jaccard_similarity_ratio_witness:
  "ingest_dataset id id count_trailing_zeros [[1, 2]] 4
     = Inr [0 \<mapsto> \<lparr>zeros = [0, 1], frequencies = Some [1, 1], documents = Some [0, 0]\<rparr>]
   \<and> ingest_dataset id id count_trailing_zeros [[1]] 4
     = Inr [0 \<mapsto> \<lparr>zeros = [0], frequencies = Some [1], documents = Some [0]\<rparr>]
   \<and> jaccard_similarity
         [0 \<mapsto> \<lparr>zeros = [0, 1], frequencies = Some [1, 1], documents = Some [0, 0]\<rparr>]
         [0 \<mapsto> \<lparr>zeros = [0], frequencies = Some [1], documents = Some [0]\<rparr>]
       = Inr 1"
proof -
  let ?A = "[(0::int) \<mapsto> \<lparr>zeros = [0::int, 1], frequencies = Some [1::int, 1],
                           documents = Some [0::int, 0]\<rparr>]"
  let ?B = "[(0::int) \<mapsto> \<lparr>zeros = [0::int], frequencies = Some [1::int],
                           documents = Some [0::int]\<rparr>]"
  have i: "intersection ?A ?B = [0 \<mapsto> zeros_only [0]]"
    by (rule ext) (simp add: intersection_def list_of_set_def)
  have u: "dom (union_hll ?A ?B) = {0}"
    by (simp add: dom_union_hll)
  have l: "len (intersection ?A ?B) = Suc 0" "len (union_hll ?A ?B) = Suc 0"
    by (simp_all add: len_def i u)
  from jaccard_similarity_ratio [of ?A ?B]
  have "jaccard_similarity ?A ?B =
     Inr (if len (union_hll ?A ?B) = 0 then 0
          else nearest_double (len (intersection ?A ?B)) (len (union_hll ?A ?B)))"
    by (rule conjunct1)
  then have "jaccard_similarity ?A ?B = Inr 1"
    by (simp only: l nearest_double_1_1) simp
  with ingest_dataset_one_bucket ingest_dataset_once show ?thesis
    by (intro conjI)
qed

text \<open>
  The claim as first stated fails, with the estimator of the specification for \<open>count\<close>.
  The sketches of the documents \<open>[1, 2 ^ 60 + 1]\<close> and \<open>[1]\<close> at precision 4 have two
  buckets and one bucket. \<open>jaccard_similarity\<close> returns 1 / 2, the ratio of the numbers of
  buckets. The estimates of the intersection and of the union are \<open>16 * ln (16 / 15)\<close> and
  \<open>16 * ln (8 / 7)\<close>, and their ratio is not 1 / 2.
\<close>

theorem jaccard_count_counterexample:
  "ingest_dataset id id count_trailing_zeros [[1, 1152921504606846977]] 4
     = Inr [0 \<mapsto> \<lparr>zeros = [0], frequencies = Some [1], documents = Some [0]\<rparr>,
            1 \<mapsto> \<lparr>zeros = [0], frequencies = Some [1], documents = Some [0]\<rparr>]
   \<and> ingest_dataset id id count_trailing_zeros [[1]] 4
     = Inr [0 \<mapsto> \<lparr>zeros = [0], frequencies = Some [1], documents = Some [0]\<rparr>]
   \<and> jaccard_similarity
         [0 \<mapsto> \<lparr>zeros = [0], frequencies = Some [1], documents = Some [0]\<rparr>,
          1 \<mapsto> \<lparr>zeros = [0], frequencies = Some [1], documents = Some [0]\<rparr>]
         [0 \<mapsto> \<lparr>zeros = [0], frequencies = Some [1], documents = Some [0]\<rparr>]
       = Inr (1 / 2)
   \<and> count 4 (intersection
         [0 \<mapsto> \<lparr>zeros = [0], frequencies = Some [1], documents = Some [0]\<rparr>,
          1 \<mapsto> \<lparr>zeros = [0], frequencies = Some [1], documents = Some [0]\<rparr>]
         [0 \<mapsto> \<lparr>zeros = [0], frequencies = Some [1], documents = Some [0]\<rparr>])
       = 16 * ln (16 / 15)
   \<and> count 4 (union_hll
         [0 \<mapsto> \<lparr>zeros = [0], frequencies = Some [1], documents = Some [0]\<rparr>,
          1 \<mapsto> \<lparr>zeros = [0], frequencies = Some [1], documents = Some [0]\<rparr>]
         [0 \<mapsto> \<lparr>zeros = [0], frequencies = Some [1], documents = Some [0]\<rparr>])
       = 16 * ln (8 / 7)
   \<and> count 4 (intersection
         [0 \<mapsto> \<lparr>zeros = [0], frequencies = Some [1], documents = Some [0]\<rparr>,
          1 \<mapsto> \<lparr>zeros = [0], frequencies = Some [1], documents = Some [0]\<rparr>]
         [0 \<mapsto> \<lparr>zeros = [0], frequencies = Some [1], documents = Some [0]\<rparr>])
       / count 4 (union_hll
         [0 \<mapsto> \<lparr>zeros = [0], frequencies = Some [1], documents = Some [0]\<rparr>,
          1 \<mapsto> \<lparr>zeros = [0], frequencies = Some [1], documents = Some [0]\<rparr>]
         [0 \<mapsto> \<lparr>zeros = [0], frequencies = Some [1], documents = Some [0]\<rparr>])
       \<noteq> 1 / 2"
proof -
  let ?A = "[(0::int) \<mapsto> \<lparr>zeros = [0::int], frequencies = Some [1::int],
                           documents = Some [0::int]\<rparr>,
             1 \<mapsto> \<lparr>zeros = [0], frequencies = Some [1], documents = Some [0]\<rparr>]"
  let ?B = "[(0::int) \<mapsto> \<lparr>zeros = [0::int], frequencies = Some [1::int],
                           documents = Some [0::int]\<rparr>]"
  have j: "jaccard_similarity ?A ?B = Inr (1 / 2)"
    by (simp add: jaccard_similarity_def intersection_two_one union_two_one len_one len_two
        truediv_le_one nearest_double_Suc_0_2)
  have ci: "count 4 (intersection ?A ?B) = 16 * ln (16 / 15)"
    by (simp only: intersection_two_one count_one)
  have cu: "count 4 (union_hll ?A ?B) = 16 * ln (8 / 7)"
    by (simp only: union_two_one count_two)
  have ne: "count 4 (intersection ?A ?B) / count 4 (union_hll ?A ?B) \<noteq> 1 / 2"
    unfolding ci cu using ln_ratio_not_half by simp
  from ingest_dataset_two_buckets ingest_dataset_once j ci cu ne show ?thesis
    by (intro conjI)
qed

subsection \<open>Ingesting an item twice\<close>

text \<open>
  C2, as amended. Ingesting one more occurrence of an item whose (bucket, trailing-zero
  count) pair is already recorded is not a no-op: bucket \<open>b\<close> gets one more entry in each
  of its three lists (the trailing-zero count again, a frequency 1, the document id). What
  stays the same is the set of bucket ids and, in every bucket, the set of distinct
  trailing-zero counts; every other bucket is untouched.
\<close>

theorem ingest_token_again:
  assumes b: "bucket_index (hf token) p = Inr b"
    and z: "ctz (hf token) \<in> zeros_at hllset b"
    and r: "ingest_token hf ctz p doc_id hllset token = Inr hllset1"
  shows "as_sets hllset1 = as_sets hllset
         \<and> (\<exists>bk fs ds. hllset b = Some bk \<and> frequencies bk = Some fs \<and> documents bk = Some ds
               \<and> hllset1 b = Some \<lparr>zeros = zeros bk @ [ctz (hf token)],
                                     frequencies = Some (fs @ [1]),
                                     documents = Some (ds @ [doc_id])\<rparr>)
         \<and> (\<forall>b'. b' \<noteq> b \<longrightarrow> hllset1 b' = hllset b')"
proof -
  from z obtain bk where bk: "hllset b = Some bk" and zin: "ctz (hf token) \<in> set (zeros bk)"
    by (cases "hllset b") (auto simp: zeros_at_def get_zeros_def)
  from r b bk obtain fs ds where fs: "frequencies bk = Some fs" and ds: "documents bk = Some ds"
    and h1: "hllset1 = hllset(b \<mapsto> \<lparr>zeros = zeros bk @ [ctz (hf token)],
                                     frequencies = Some (fs @ [1]),
                                     documents = Some (ds @ [doc_id])\<rparr>)"
    by (auto simp: ingest_token_old_bucket split: option.splits)
  have "as_sets hllset1 = as_sets hllset"
    using bk zin by (auto simp: h1 as_sets_def fun_eq_iff)
  with bk fs ds h1 show ?thesis
    by simp
qed

text \<open>
  The theorem at work: the hash value 1 once more, from document 7, into the sketch that
  holds it already.
\<close>

theorem ingest_token_again_witness:
  "bucket_index (id 1) 4 = Inr 0
   \<and> count_trailing_zeros (id 1) \<in>
       zeros_at [0 \<mapsto> \<lparr>zeros = [0], frequencies = Some [1], documents = Some [0]\<rparr>] 0
   \<and> ingest_token id count_trailing_zeros 4 7
       [0 \<mapsto> \<lparr>zeros = [0], frequencies = Some [1], documents = Some [0]\<rparr>] 1
     = Inr [0 \<mapsto> \<lparr>zeros = [0, 0], frequencies = Some [1, 1], documents = Some [0, 7]\<rparr>]
   \<and> as_sets [0 \<mapsto> \<lparr>zeros = [0, 0], frequencies = Some [1, 1], documents = Some [0, 7]\<rparr>]
     = as_sets [0 \<mapsto> \<lparr>zeros = [0], frequencies = Some [1], documents = Some [0]\<rparr>]"
proof -
  let ?s = "[(0::int) \<mapsto> \<lparr>zeros = [0::int], frequencies = Some [1::int],
                           documents = Some [0::int]\<rparr>]"
  let ?s1 = "[(0::int) \<mapsto> \<lparr>zeros = [0::int, 0], frequencies = Some [1::int, 1],
                            documents = Some [0::int, 7]\<rparr>]"
  have b: "bucket_index (id (1::int)) 4 = Inr 0"
    by (simp add: bucket_index_1_4)
  have z: "count_trailing_zeros (id (1::int)) \<in> zeros_at ?s 0"
    by (simp add: count_trailing_zeros_1 zeros_at_def get_zeros_def)
  have r: "ingest_token id count_trailing_zeros 4 7 ?s (1::int) = Inr ?s1"
    by (simp add: ingest_token_old_bucket bucket_index_1_4 count_trailing_zeros_1)
  show ?thesis
    using ingest_token_again [OF b z r] b z r by simp
qed

text \<open>
  The claim as first stated fails: a document with the same token twice is not ingested
  to the sketch of the document with the token once.
\<close>

theorem ingest_twice_counterexample:
  "ingest_dataset id id count_trailing_zeros [[1]] 4
     = Inr [0 \<mapsto> \<lparr>zeros = [0], frequencies = Some [1], documents = Some [0]\<rparr>]
   \<and> ingest_dataset id id count_trailing_zeros [[1, 1]] 4
     = Inr [0 \<mapsto> \<lparr>zeros = [0, 0], frequencies = Some [1, 1], documents = Some [0, 0]\<rparr>]
   \<and> ingest_dataset id id count_trailing_zeros [[1, 1]] 4
     \<noteq> ingest_dataset id id count_trailing_zeros [[1]] 4"
  by (simp add: ingest_dataset_once ingest_dataset_twice singleton_sketch_neq)

subsection \<open>Operands of different configurations\<close>

text \<open>
  C3, as amended. The operations make no compatibility check and have no error to raise: a
  sketch records neither the precision nor the hash function it was ingested with. For
  every pair of sketches, whatever the documents, tokenizers, hash functions and
  precisions \<open>p1\<close> and \<open>p2\<close> they come from, union, intersection and complement return the
  sketch computed from the two dicts as they are, bucket id by bucket id: the union, the
  intersection and the difference of the two sets of trailing-zero counts.
\<close>

theorem operations_unchecked:
  assumes "ingest_dataset tokenize1 hf1 ctz1 docs1 p1 = Inr A"
    and "ingest_dataset tokenize2 hf2 ctz2 docs2 p2 = Inr B"
  shows "zeros_at (union_hll A B) b = zeros_at A b \<union> zeros_at B b
         \<and> zeros_at (intersection A B) b = zeros_at A b \<inter> zeros_at B b
         \<and> zeros_at (complement A B) b = zeros_at A b - zeros_at B b"
  by (simp add: zeros_at_union_hll zeros_at_intersection zeros_at_complement)

theorem operations_unchecked_witness:
  "ingest_dataset id id count_trailing_zeros [[9223372036854775809]] 1
     = Inr [1 \<mapsto> \<lparr>zeros = [0], frequencies = Some [1], documents = Some [0]\<rparr>]
   \<and> ingest_dataset id id count_trailing_zeros [[9223372036854775809]] 2
     = Inr [2 \<mapsto> \<lparr>zeros = [0], frequencies = Some [1], documents = Some [0]\<rparr>]
   \<and> zeros_at (union_hll
       [1 \<mapsto> \<lparr>zeros = [0], frequencies = Some [1], documents = Some [0]\<rparr>]
       [2 \<mapsto> \<lparr>zeros = [0], frequencies = Some [1], documents = Some [0]\<rparr>]) 2 = {0}
   \<and> zeros_at (intersection
       [1 \<mapsto> \<lparr>zeros = [0], frequencies = Some [1], documents = Some [0]\<rparr>]
       [2 \<mapsto> \<lparr>zeros = [0], frequencies = Some [1], documents = Some [0]\<rparr>]) 2 = {}
   \<and> zeros_at (complement
       [1 \<mapsto> \<lparr>zeros = [0], frequencies = Some [1], documents = Some [0]\<rparr>]
       [2 \<mapsto> \<lparr>zeros = [0], frequencies = Some [1], documents = Some [0]\<rparr>]) 2 = {}"
proof -
  let ?A = "[(1::int) \<mapsto> \<lparr>zeros = [0::int], frequencies = Some [1::int],
                           documents = Some [0::int]\<rparr>]"
  let ?B = "[(2::int) \<mapsto> \<lparr>zeros = [0::int], frequencies = Some [1::int],
                           documents = Some [0::int]\<rparr>]"
  have z: "zeros_at ?A 2 = {}" "zeros_at ?B 2 = {0}"
    by (simp_all add: zeros_at_def get_zeros_def)
  show ?thesis
    using operations_unchecked [OF ingest_dataset_precision_1 ingest_dataset_precision_2, of 2]
      z ingest_dataset_precision_1 ingest_dataset_precision_2
    by simp
qed

text \<open>
  The claim as first stated fails: the same document ingested at precision 1 and at
  precision 2 gives two sketches, and each operation returns a sketch for them.
\<close>

theorem mixed_precision_counterexample:
  "ingest_dataset id id count_trailing_zeros [[9223372036854775809]] 1
     = Inr [1 \<mapsto> \<lparr>zeros = [0], frequencies = Some [1], documents = Some [0]\<rparr>]
   \<and> ingest_dataset id id count_trailing_zeros [[9223372036854775809]] 2
     = Inr [2 \<mapsto> \<lparr>zeros = [0], frequencies = Some [1], documents = Some [0]\<rparr>]
   \<and> union_hll
       [1 \<mapsto> \<lparr>zeros = [0], frequencies = Some [1], documents = Some [0]\<rparr>]
       [2 \<mapsto> \<lparr>zeros = [0], frequencies = Some [1], documents = Some [0]\<rparr>]
     = [1 \<mapsto> \<lparr>zeros = [0], frequencies = None, documents = None\<rparr>,
        2 \<mapsto> \<lparr>zeros = [0], frequencies = None, documents = None\<rparr>]
   \<and> intersection
       [1 \<mapsto> \<lparr>zeros = [0], frequencies = Some [1], documents = Some [0]\<rparr>]
       [2 \<mapsto> \<lparr>zeros = [0], frequencies = Some [1], documents = Some [0]\<rparr>]
     = Map.empty
   \<and> complement
       [1 \<mapsto> \<lparr>zeros = [0], frequencies = Some [1], documents = Some [0]\<rparr>]
       [2 \<mapsto> \<lparr>zeros = [0], frequencies = Some [1], documents = Some [0]\<rparr>]
     = [1 \<mapsto> \<lparr>zeros = [0], frequencies = Some [1], documents = Some [0]\<rparr>]"
proof -
  let ?A = "[(1::int) \<mapsto> \<lparr>zeros = [0::int], frequencies = Some [1::int],
                           documents = Some [0::int]\<rparr>]"
  let ?B = "[(2::int) \<mapsto> \<lparr>zeros = [0::int], frequencies = Some [1::int],
                           documents = Some [0::int]\<rparr>]"
  have u: "union_hll ?A ?B = [1 \<mapsto> \<lparr>zeros = [0], frequencies = None, documents = None\<rparr>,
        2 \<mapsto> \<lparr>zeros = [0], frequencies = None, documents = None\<rparr>]"
    by (rule ext) (simp add: union_hll_def get_zeros_def zeros_only_def list_of_set_def)
  have i: "intersection ?A ?B = Map.empty"
    by (rule ext) (simp add: intersection_def)
  have c: "complement ?A ?B = ?A"
    by (rule ext) (simp add: complement_def)
  from ingest_dataset_precision_1 ingest_dataset_precision_2 u i c show ?thesis
    by simp
qed

subsection \<open>Union with the empty sketch\<close>

text \<open>
  C4, as amended. The union of a sketch \<open>A\<close> with the empty sketch has the bucket ids of \<open>A\<close>
  and, in every bucket, the same set of trailing-zero counts as \<open>A\<close>. It is not a copy of
  \<open>A\<close>: each of its buckets holds only the \<^verbatim>\<open>"zeros"\<close> component, with duplicates
  removed, and the frequencies and documents of \<open>A\<close> are left behind.
\<close>

theorem union_empty:
  "union_hll A Map.empty = (\<lambda>b. map_option (\<lambda>bk. zeros_only (list_of_set (zeros bk))) (A b))
   \<and> as_sets (union_hll A Map.empty) = as_sets A"
proof
  show "union_hll A Map.empty
        = (\<lambda>b. map_option (\<lambda>bk. zeros_only (list_of_set (zeros bk))) (A b))"
    by (rule ext) (auto simp: union_hll_def get_zeros_def split: option.splits)
  show "as_sets (union_hll A Map.empty) = as_sets A"
    by (rule ext)
      (simp add: as_sets_eq_zeros_at dom_union_hll zeros_at_union_hll zeros_at_empty)
qed

text \<open>
  The claim as first stated fails on the sketch that \<open>ingest_dataset\<close> returns for one
  document with one token.
\<close>

theorem union_empty_counterexample:
  "ingest_dataset id id count_trailing_zeros [[1]] 4
     = Inr [0 \<mapsto> \<lparr>zeros = [0], frequencies = Some [1], documents = Some [0]\<rparr>]
   \<and> union_hll [0 \<mapsto> \<lparr>zeros = [0], frequencies = Some [1], documents = Some [0]\<rparr>] Map.empty
     = [0 \<mapsto> \<lparr>zeros = [0], frequencies = None, documents = None\<rparr>]
   \<and> union_hll [0 \<mapsto> \<lparr>zeros = [0], frequencies = Some [1], documents = Some [0]\<rparr>] Map.empty
     \<noteq> [0 \<mapsto> \<lparr>zeros = [0], frequencies = Some [1], documents = Some [0]\<rparr>]"
proof -
  let ?A = "[(0::int) \<mapsto> \<lparr>zeros = [0::int], frequencies = Some [1::int],
                           documents = Some [0::int]\<rparr>]"
  have u: "union_hll ?A Map.empty = [0 \<mapsto> \<lparr>zeros = [0], frequencies = None, documents = None\<rparr>]"
    by (rule ext) (simp add: union_hll_def get_zeros_def zeros_only_def list_of_set_def)
  have "union_hll ?A Map.empty \<noteq> ?A"
    unfolding u by (rule singleton_sketch_neq) simp
  with u ingest_dataset_once show ?thesis
    by simp
qed

subsection \<open>Complement\<close>

text \<open>
  C5, as amended. For disjoint sketches \<open>A\<close> and \<open>B\<close>, \<open>complement A B\<close> holds in every
  bucket the same set of trailing-zero counts as \<open>A\<close>, and it is \<open>A\<close> itself when the two
  sketches share no bucket id. (A bucket id that \<open>B\<close> has too keeps only its \<^verbatim>\<open>"zeros"\<close>
  component, with duplicates removed.) For every sketch \<open>A\<close>, \<open>complement A A\<close> is the
  empty sketch.
\<close>

theorem complement_disjoint_and_self:
  "(disjoint_sketches A B \<longrightarrow>
      (\<forall>b. zeros_at (complement A B) b = zeros_at A b)
      \<and> (dom A \<inter> dom B = {} \<longrightarrow> complement A B = A))
   \<and> complement A A = Map.empty"
  by (auto simp: disjoint_sketches_def zeros_at_complement complement_self
      complement_no_shared_bucket)

theorem complement_disjoint_and_self_witness:
  "disjoint_sketches
     [0 \<mapsto> \<lparr>zeros = [0], frequencies = Some [1], documents = Some [0]\<rparr>]
     [0 \<mapsto> \<lparr>zeros = [1], frequencies = Some [1], documents = Some [0]\<rparr>]
   \<and> zeros_at (complement
        [0 \<mapsto> \<lparr>zeros = [0], frequencies = Some [1], documents = Some [0]\<rparr>]
        [0 \<mapsto> \<lparr>zeros = [1], frequencies = Some [1], documents = Some [0]\<rparr>]) 0 = {0}
   \<and> disjoint_sketches
     [0 \<mapsto> \<lparr>zeros = [0], frequencies = Some [1], documents = Some [0]\<rparr>]
     [3 \<mapsto> \<lparr>zeros = [0], frequencies = Some [1], documents = Some [0]\<rparr>]
   \<and> complement
     [0 \<mapsto> \<lparr>zeros = [0], frequencies = Some [1], documents = Some [0]\<rparr>]
     [3 \<mapsto> \<lparr>zeros = [0], frequencies = Some [1], documents = Some [0]\<rparr>]
     = [0 \<mapsto> \<lparr>zeros = [0], frequencies = Some [1], documents = Some [0]\<rparr>]
   \<and> complement
     [0 \<mapsto> \<lparr>zeros = [0], frequencies = Some [1], documents = Some [0]\<rparr>]
     [0 \<mapsto> \<lparr>zeros = [0], frequencies = Some [1], documents = Some [0]\<rparr>] = Map.empty"
proof -
  let ?A = "[(0::int) \<mapsto> \<lparr>zeros = [0::int], frequencies = Some [1::int],
                           documents = Some [0::int]\<rparr>]"
  let ?B = "[(0::int) \<mapsto> \<lparr>zeros = [1::int], frequencies = Some [1::int],
                           documents = Some [0::int]\<rparr>]"
  let ?C = "[(3::int) \<mapsto> \<lparr>zeros = [0::int], frequencies = Some [1::int],
                           documents = Some [0::int]\<rparr>]"
  have d1: "disjoint_sketches ?A ?B"
    by (simp add: disjoint_sketches_def zeros_at_def get_zeros_def)
  have d2: "disjoint_sketches ?A ?C"
    by (simp add: disjoint_sketches_def zeros_at_def get_zeros_def)
  have z: "zeros_at ?A 0 = {0}"
    by (simp add: zeros_at_def get_zeros_def)
  have n: "dom ?A \<inter> dom ?C = {}"
    by simp
  show ?thesis
    using complement_disjoint_and_self [of ?A ?B] complement_disjoint_and_self [of ?A ?C]
      d1 d2 z n
    by simp
qed

text \<open>
  The claim as first stated fails on the sketches of two one-token documents whose tokens
  fall in the same bucket with different trailing-zero counts: they are disjoint, and the
  complement is not the first sketch.
\<close>

theorem complement_disjoint_counterexample:
  "ingest_dataset id id count_trailing_zeros [[1]] 4
     = Inr [0 \<mapsto> \<lparr>zeros = [0], frequencies = Some [1], documents = Some [0]\<rparr>]
   \<and> ingest_dataset id id count_trailing_zeros [[2]] 4
     = Inr [0 \<mapsto> \<lparr>zeros = [1], frequencies = Some [1], documents = Some [0]\<rparr>]
   \<and> disjoint_sketches
     [0 \<mapsto> \<lparr>zeros = [0], frequencies = Some [1], documents = Some [0]\<rparr>]
     [0 \<mapsto> \<lparr>zeros = [1], frequencies = Some [1], documents = Some [0]\<rparr>]
   \<and> complement
     [0 \<mapsto> \<lparr>zeros = [0], frequencies = Some [1], documents = Some [0]\<rparr>]
     [0 \<mapsto> \<lparr>zeros = [1], frequencies = Some [1], documents = Some [0]\<rparr>]
     = [0 \<mapsto> \<lparr>zeros = [0], frequencies = None, documents = None\<rparr>]
   \<and> complement
     [0 \<mapsto> \<lparr>zeros = [0], frequencies = Some [1], documents = Some [0]\<rparr>]
     [0 \<mapsto> \<lparr>zeros = [1], frequencies = Some [1], documents = Some [0]\<rparr>]
     \<noteq> [0 \<mapsto> \<lparr>zeros = [0], frequencies = Some [1], documents = Some [0]\<rparr>]"
proof -
  let ?A = "[(0::int) \<mapsto> \<lparr>zeros = [0::int], frequencies = Some [1::int],
                           documents = Some [0::int]\<rparr>]"
  let ?B = "[(0::int) \<mapsto> \<lparr>zeros = [1::int], frequencies = Some [1::int],
                           documents = Some [0::int]\<rparr>]"
  have d: "disjoint_sketches ?A ?B"
    by (simp add: disjoint_sketches_def zeros_at_def get_zeros_def)
  have c: "complement ?A ?B = [0 \<mapsto> \<lparr>zeros = [0], frequencies = None, documents = None\<rparr>]"
    by (rule ext) (simp add: complement_def zeros_only_def list_of_set_def)
  have "complement ?A ?B \<noteq> ?A"
    unfolding c by (rule singleton_sketch_neq) simp
  with d c ingest_dataset_once ingest_dataset_other show ?thesis
    by simp
qed

subsection \<open>Commutativity and associativity\<close>

text \<open>
  C6. Union and intersection are commutative and associative, for all sketches \<open>A\<close>, \<open>B\<close>
  and \<open>C\<close>, when two results are compared by their bucket ids and, per bucket, by the set
  of trailing-zero counts. (The order of the list in a bucket is the iteration order of a
  Python set, which the language leaves open.)
\<close>

theorem union_intersection_comm_assoc:
  "as_sets (union_hll A B) = as_sets (union_hll B A)
   \<and> as_sets (intersection A B) = as_sets (intersection B A)
   \<and> as_sets (union_hll (union_hll A B) C) = as_sets (union_hll A (union_hll B C))
   \<and> as_sets (intersection (intersection A B) C) = as_sets (intersection A (intersection B C))"
proof (intro conjI ext)
  fix b
  show "as_sets (union_hll A B) b = as_sets (union_hll B A) b"
    by (simp add: as_sets_union_hll Un_commute)
  show "as_sets (intersection A B) b = as_sets (intersection B A) b"
    by (simp add: as_sets_intersection Int_commute)
  show "as_sets (union_hll (union_hll A B) C) b = as_sets (union_hll A (union_hll B C)) b"
    by (simp add: as_sets_union_hll dom_union_hll zeros_at_union_hll Un_assoc)
  show "as_sets (intersection (intersection A B) C) b
        = as_sets (intersection A (intersection B C)) b"
    by (simp add: as_sets_intersection zeros_at_intersection Int_assoc)
qed

subsection \<open>Two empty sketches\<close>

text \<open>
  C7. \<open>jaccard_similarity\<close> of two empty sketches returns the number 0: the union has no
  bucket, the guard \<^verbatim>\<open>union_size > 0\<close> fails, and no division takes place.
\<close>

theorem jaccard_similarity_empty: "jaccard_similarity Map.empty Map.empty = Inr 0"
  by (simp add: jaccard_similarity_def Let_def len_def union_hll_empty)

subsection \<open>The bucket index\<close>

text \<open>
  C8. For every 64-bit hash value (\<open>0 \<le> hash_val < 2 ^ 64\<close>) and every precision \<open>p\<close>
  (a number of bits of such a value, \<open>0 \<le> p \<le> 64\<close>), the bucket index that ingestion
  computes is the top \<open>p\<close> bits of the hash, \<open>hash_val div 2 ^ (64 - p)\<close>, and it is an
  unsigned integer in the range \<open>[0, 2 ^ p)\<close>. The line does not raise.
\<close>

theorem bucket_index_top_bits:
  assumes "0 \<le> hash_val" and "hash_val < 2 ^ 64" and "0 \<le> p" and "p \<le> 64"
  shows "bucket_index hash_val p = Inr (hash_val div 2 ^ (64 - nat p))
         \<and> 0 \<le> hash_val div 2 ^ (64 - nat p)
         \<and> hash_val div 2 ^ (64 - nat p) < 2 ^ nat p"
proof -
  let ?b = "take_bit (nat p) (drop_bit (64 - nat p) hash_val)"
  have np: "nat p \<le> 64"
    using assms by simp
  have ret: "bucket_index hash_val p = Inr ?b"
    using assms by (simp add: bucket_index_take_bit)
  have top: "?b = hash_val div 2 ^ (64 - nat p)"
    using assms take_bit_drop_bit_top [OF np, of hash_val] by simp
  have "0 \<le> ?b" and "?b < 2 ^ nat p"
    by simp_all
  with ret top show ?thesis
    by simp
qed

text \<open>The hash value \<open>0xC000000000000005\<close> at precision 4: bucket \<open>0xC\<close>.\<close>

theorem bucket_index_top_bits_witness:
  "bucket_index 13835058055282163717 4 = Inr 12 \<and> (0::int) \<le> 12 \<and> (12::int) < 2 ^ 4"
  using bucket_index_top_bits [of 13835058055282163717 4] by simp

subsection \<open>What the results carry\<close>

text \<open>
  C9. Every bucket of a union and of an intersection consists of the \<^verbatim>\<open>"zeros"\<close> component
  alone: it has no frequencies and no documents, whatever metadata the buckets of the
  operands carry. The complement, in contrast, passes the whole bucket record of the
  first operand through for a bucket id that the second operand does not have.
\<close>

theorem union_intersection_zeros_only:
  "(\<forall>b bk. union_hll A B b = Some bk \<longrightarrow> frequencies bk = None \<and> documents bk = None)
   \<and> (\<forall>b bk. intersection A B b = Some bk \<longrightarrow> frequencies bk = None \<and> documents bk = None)
   \<and> (\<forall>b. b \<in> dom A \<and> b \<notin> dom B \<longrightarrow> complement A B b = A b)"
proof -
  have u: "\<forall>b bk. union_hll A B b = Some bk \<longrightarrow> frequencies bk = None \<and> documents bk = None"
    by (intro allI impI) (rule union_hll_Some)
  have i: "\<forall>b bk. intersection A B b = Some bk \<longrightarrow> frequencies bk = None \<and> documents bk = None"
    by (intro allI impI) (rule intersection_Some)
  have c: "\<forall>b. b \<in> dom A \<and> b \<notin> dom B \<longrightarrow> complement A B b = A b"
    by (simp add: complement_absent)
  from u i c show ?thesis
    by (intro conjI)
qed

theorem union_intersection_zeros_only_witness:
  "union_hll
     [0 \<mapsto> \<lparr>zeros = [0, 1], frequencies = Some [1, 1], documents = Some [0, 0]\<rparr>,
      5 \<mapsto> \<lparr>zeros = [2], frequencies = Some [1], documents = Some [1]\<rparr>]
     [0 \<mapsto> \<lparr>zeros = [1], frequencies = Some [1], documents = Some [0]\<rparr>] 0
     = Some \<lparr>zeros = [0, 1], frequencies = None, documents = None\<rparr>
   \<and> intersection
     [0 \<mapsto> \<lparr>zeros = [0, 1], frequencies = Some [1, 1], documents = Some [0, 0]\<rparr>,
      5 \<mapsto> \<lparr>zeros = [2], frequencies = Some [1], documents = Some [1]\<rparr>]
     [0 \<mapsto> \<lparr>zeros = [1], frequencies = Some [1], documents = Some [0]\<rparr>] 0
     = Some \<lparr>zeros = [1], frequencies = None, documents = None\<rparr>
   \<and> complement
     [0 \<mapsto> \<lparr>zeros = [0, 1], frequencies = Some [1, 1], documents = Some [0, 0]\<rparr>,
      5 \<mapsto> \<lparr>zeros = [2], frequencies = Some [1], documents = Some [1]\<rparr>]
     [0 \<mapsto> \<lparr>zeros = [1], frequencies = Some [1], documents = Some [0]\<rparr>] 5
     = Some \<lparr>zeros = [2], frequencies = Some [1], documents = Some [1]\<rparr>"
proof -
  let ?A = "[(0::int) \<mapsto> \<lparr>zeros = [0::int, 1], frequencies = Some [1::int, 1],
                           documents = Some [0::int, 0]\<rparr>,
             5 \<mapsto> \<lparr>zeros = [2], frequencies = Some [1], documents = Some [1]\<rparr>]"
  let ?B = "[(0::int) \<mapsto> \<lparr>zeros = [1::int], frequencies = Some [1::int],
                           documents = Some [0::int]\<rparr>]"
  have u: "union_hll ?A ?B 0 = Some \<lparr>zeros = [0, 1], frequencies = None, documents = None\<rparr>"
    by (simp add: union_hll_def get_zeros_def zeros_only_def list_of_set_def)
  have i: "intersection ?A ?B 0 = Some \<lparr>zeros = [1], frequencies = None, documents = None\<rparr>"
    by (simp add: intersection_def zeros_only_def list_of_set_def)
  have c: "5 \<in> dom ?A \<and> 5 \<notin> dom ?B"
    by simp
  show ?thesis
    using union_intersection_zeros_only [of ?A ?B] u i c
    by simp
qed

subsection \<open>No bucket is invented\<close>

text \<open>
  C10. Every bucket id of \<open>union_hll A B\<close> is a bucket id of \<open>A\<close> or of \<open>B\<close>, every bucket
  id of \<open>intersection A B\<close> is a bucket id of both, and every bucket id of
  \<open>complement A B\<close> is a bucket id of \<open>A\<close>.
\<close>

theorem no_invented_buckets:
  "dom (union_hll A B) \<subseteq> dom A \<union> dom B
   \<and> dom (intersection A B) \<subseteq> dom A \<inter> dom B
   \<and> dom (complement A B) \<subseteq> dom A"
proof (intro conjI)
  show "dom (union_hll A B) \<subseteq> dom A \<union> dom B"
    by (simp add: dom_union_hll)
  show "dom (intersection A B) \<subseteq> dom A \<inter> dom B"
    by (rule dom_intersection_subset)
  show "dom (complement A B) \<subseteq> dom A"
    by (auto simp: dom_complement)
qed

theorem no_invented_buckets_witness:
  "dom (union_hll [0 \<mapsto> zeros_only [1]] [2 \<mapsto> zeros_only [1]]) \<subseteq> {0, 2}
   \<and> dom (intersection [0 \<mapsto> zeros_only [1]] [2 \<mapsto> zeros_only [1]]) \<subseteq> {}
   \<and> dom (complement [0 \<mapsto> zeros_only [1]] [2 \<mapsto> zeros_only [1]]) \<subseteq> {0}"
  using no_invented_buckets [of "[0 \<mapsto> zeros_only [1]]" "[2 \<mapsto> zeros_only [1]]"]
  by (simp add: insert_commute)

end
